theory Spec2Isabelle
  imports Complex_Main
begin

section \<open>Python values used by the RAG service\<close>

text \<open>
  The service (\<^verbatim>\<open>services/RAG_service/app.py\<close>) is one FastAPI endpoint, \<^verbatim>\<open>get_context\<close>,
  and five helpers. A Python \<^verbatim>\<open>str\<close> is a sequence of Unicode code points, so it is a list
  of naturals here; \<open>lit\<close> turns an ASCII literal of the source into such a list.
\<close>

type_synonym codepoint = nat
type_synonym pystr = "codepoint list"

definition lit :: "string \<Rightarrow> pystr" where
  "lit s = map of_char s"

text \<open>
  The code points that \<^verbatim>\<open>str.strip()\<close> (no argument) removes: U+0009..U+000D,
  U+001C..U+0020, U+0085, U+00A0, U+1680, U+2000..U+200A, U+2028, U+2029, U+202F, U+205F
  and U+3000.
\<close>

definition py_isspace :: "codepoint \<Rightarrow> bool" where
  "py_isspace c \<longleftrightarrow>
     (9 \<le> c \<and> c \<le> 13) \<or> (28 \<le> c \<and> c \<le> 32) \<or> c = 133 \<or> c = 160 \<or> c = 5760 \<or>
     (8192 \<le> c \<and> c \<le> 8202) \<or> c = 8232 \<or> c = 8233 \<or> c = 8239 \<or> c = 8287 \<or> c = 12288"

text \<open>\<^verbatim>\<open>s.strip()\<close>: leading, then trailing whitespace is removed.\<close>

definition str_strip :: "pystr \<Rightarrow> pystr" where
  "str_strip s = rev (dropWhile py_isspace (rev (dropWhile py_isspace s)))"

text \<open>
  \<^verbatim>\<open>s.split(c)\<close> for a separator of one character: the pieces between the occurrences of
  \<open>c\<close>, empty pieces included; the result is never the empty list.
\<close>

fun str_split :: "pystr \<Rightarrow> codepoint \<Rightarrow> pystr list" where
  "str_split [] c = [[]]"
| "str_split (x # xs) c =
     (if x = c then [] # str_split xs c
      else (x # hd (str_split xs c)) # tl (str_split xs c))"

text \<open>\<^verbatim>\<open>sep.join(xs)\<close> for a list of strings.\<close>

fun str_join :: "pystr \<Rightarrow> pystr list \<Rightarrow> pystr" where
  "str_join sep [] = []"
| "str_join sep [x] = x"
| "str_join sep (x # y # ys) = x @ sep @ str_join sep (y # ys)"

text \<open>
  \<^verbatim>\<open>a or b\<close> where \<open>a\<close> is an \<^verbatim>\<open>Optional[str]\<close> or an \<^verbatim>\<open>Optional[int]\<close>: \<open>b\<close> is taken
  when \<open>a\<close> is \<^verbatim>\<open>None\<close> and also when it is falsy (\<^verbatim>\<open>""\<close>, \<^verbatim>\<open>0\<close>).
\<close>

fun or_str :: "pystr option \<Rightarrow> pystr \<Rightarrow> pystr" where
  "or_str None d = d"
| "or_str (Some s) d = (if s = [] then d else s)"

fun or_int :: "int option \<Rightarrow> int \<Rightarrow> int" where
  "or_int None d = d"
| "or_int (Some n) d = (if n = 0 then d else n)"

text \<open>
  What \<^verbatim>\<open>json.loads\<close> can return. A finite float is kept by its exact value and the
  infinities and NaN are \<open>NonFinite\<close>: the service only ever asks whether a number is zero.
  An object is the list of its items; a key is looked up by its first binding.
\<close>

datatype pyfloat = Finite real | NonFinite

datatype json =
    JNull
  | JBool bool
  | JInt int
  | JFloat pyfloat
  | JStr pystr
  | JArr "json list"
  | JObj "(pystr \<times> json) list"

text \<open>
  Exceptions. All of them are instances of \<^verbatim>\<open>Exception\<close>; \<open>MySQLError\<close> stands for the
  instances of \<^verbatim>\<open>mysql.connector.Error\<close>, \<open>OtherException\<close> for every class the service
  itself never names (a transport error of an HTTP client, an \<^verbatim>\<open>OSError\<close>, ...).
  \<open>UnicodeEncodeError\<close> is what \<^verbatim>\<open>print\<close> raises on text that the console cannot encode.
\<close>

datatype py_exception =
    KeyError pystr
  | TypeError
  | AttributeError
  | UnicodeEncodeError
  | MySQLError pystr
  | OtherException pystr

type_synonym 'a result = "py_exception + 'a"

fun is_mysql_error :: "py_exception \<Rightarrow> bool" where
  "is_mysql_error (MySQLError m) = True"
| "is_mysql_error e = False"

text \<open>\<^verbatim>\<open>v[key]\<close> with a string key: only a dict accepts it, and only for a key it has.\<close>

fun subscript :: "json \<Rightarrow> pystr \<Rightarrow> json result" where
  "subscript (JObj items) key =
     (case map_of items key of None \<Rightarrow> Inl (KeyError key) | Some v \<Rightarrow> Inr v)"
| "subscript v key = Inl TypeError"

text \<open>\<^verbatim>\<open>v.strip()\<close>: only a \<^verbatim>\<open>str\<close> has the method.\<close>

fun strip_method :: "json \<Rightarrow> pystr result" where
  "strip_method (JStr s) = Inr (str_strip s)"
| "strip_method v = Inl AttributeError"

text \<open>\<^verbatim>\<open>bool(v)\<close>: Python's truth value of a parsed JSON value.\<close>

fun py_bool :: "json \<Rightarrow> bool" where
  "py_bool JNull = False"
| "py_bool (JBool b) = b"
| "py_bool (JInt n) = (n \<noteq> 0)"
| "py_bool (JFloat (Finite x)) = (x \<noteq> 0)"
| "py_bool (JFloat NonFinite) = True"
| "py_bool (JStr s) = (s \<noteq> [])"
| "py_bool (JArr xs) = (xs \<noteq> [])"
| "py_bool (JObj items) = (items \<noteq> [])"

text \<open>
  \<^verbatim>\<open>print\<close> of a string written as it is (an f-string field holding a \<^verbatim>\<open>str\<close>), on a
  console that is UTF-8 with the default error handler: a surrogate code point,
  U+D800..U+DFFF, cannot be encoded and the call raises; every other string is written. A
  string inside a printed list or dict is written through \<^verbatim>\<open>repr\<close>, which escapes the
  surrogates, so such a \<^verbatim>\<open>print\<close> does not raise.
\<close>

definition is_surrogate :: "codepoint \<Rightarrow> bool" where
  "is_surrogate c \<longleftrightarrow> 55296 \<le> c \<and> c \<le> 57343"

definition print_str :: "pystr \<Rightarrow> unit result" where
  "print_str s = (if list_ex is_surrogate s then Inl UnicodeEncodeError else Inr ())"

text \<open>
  \<^verbatim>\<open>sep.join(items)\<close> on a list of arbitrary values: an item that is not a \<^verbatim>\<open>str\<close> makes it
  raise \<^verbatim>\<open>TypeError\<close>.
\<close>

fun the_strings :: "json list \<Rightarrow> (pystr list) result" where
  "the_strings [] = Inr []"
| "the_strings (JStr s # vs) =
     (case the_strings vs of Inl x \<Rightarrow> Inl x | Inr ss \<Rightarrow> Inr (s # ss))"
| "the_strings (v # vs) = Inl TypeError"

definition join_method :: "pystr \<Rightarrow> json list \<Rightarrow> pystr result" where
  "join_method sep items =
     (case the_strings items of Inl x \<Rightarrow> Inl x | Inr ss \<Rightarrow> Inr (str_join sep ss))"

section \<open>Request, response and the external services\<close>

text \<open>
  \<^verbatim>\<open>RagRequest\<close> and \<^verbatim>\<open>RagResponse\<close>, field by field (the fields carry a prefix, since
  \<open>k\<close> and \<open>context\<close> cannot be selector names).
\<close>

record rag_request =
  req_question :: pystr
  req_history :: "pystr option"
  req_caller_number :: "pystr option"
  req_escalated_to :: "pystr option"
  req_k :: "int option"

record rag_response =
  resp_context :: pystr
  resp_is_escalation :: bool

text \<open>
  The process-wide configuration and clients. \<open>DEFAULT_K\<close> is the value read from
  \<^verbatim>\<open>RAG_TOP_K\<close>. Each external call is a function from what the service sends to what
  comes back, \<open>Inl\<close> when the call raises:
  \<^item> \<open>llm_process_query\<close>: the \<^verbatim>\<open>gpt-4o\<close> function call of \<^verbatim>\<open>rewrite_and_detect\<close> on the
    user message, followed by \<^verbatim>\<open>json.loads\<close> of the returned arguments (\<open>Inl\<close> when either
    raises);
  \<^item> \<open>llm_keywords\<close>: the \<^verbatim>\<open>gpt-4o-mini\<close> completion of \<^verbatim>\<open>extract_tags\<close> on the prompt; the
    message content is an optional string;
  \<^item> \<open>llm_summary\<close>: the \<^verbatim>\<open>gpt-4o-mini\<close> completion of \<^verbatim>\<open>make_reason\<close> on the transcript;
  \<^item> \<open>near_text\<close>: the Weaviate query on the collection \<^verbatim>\<open>VECTOR_CLASS\<close>; it returns the
    objects in the order of the index, each object being its \<^verbatim>\<open>properties\<close> dict, whose
    values are of whatever type the collection stores;
  \<^item> \<open>db_insert\<close>: connect, insert one row into \<^verbatim>\<open>human_escalation\<close>, commit.
  The system instructions, model names and the temperature are constants of the calls.
\<close>

record env =
  DEFAULT_K :: int
  llm_process_query :: "pystr \<Rightarrow> json result"
  llm_keywords :: "pystr \<Rightarrow> (pystr option) result"
  llm_summary :: "pystr \<Rightarrow> (pystr option) result"
  near_text :: "pystr list \<Rightarrow> int \<Rightarrow> ((pystr \<times> json) list list) result"
  db_insert :: "pystr \<Rightarrow> pystr \<Rightarrow> pystr \<Rightarrow> unit result"

text \<open>
  What a test double observes of a turn: each helper records its own invocation with its
  arguments, and each \<^verbatim>\<open>log.error\<close> records its format string and the exception.
\<close>

datatype event =
    Normalizer pystr "pystr option"
  | Summarizer pystr
  | Recorder pystr pystr pystr
  | Tag_Extractor pystr
  | Retriever "pystr list" int
  | Log_error pystr py_exception

section \<open>The helpers\<close>

text \<open>
  \<^verbatim>\<open>rewrite_and_detect(question, history)\<close>. The tuple on line 101 is evaluated left to
  right: \<^verbatim>\<open>args["rewritten_query"]\<close>, its \<^verbatim>\<open>.strip()\<close>, then
  \<^verbatim>\<open>bool(args["is_escalation"])\<close>. Line 102 then prints the rewritten query as it is, which
  can raise; line 103 prints a boolean, which cannot.
\<close>

text \<open>
  The user message of the normalizer, an f-string: \<^verbatim>\<open>History:\<close>, a newline,
  \<^verbatim>\<open>history or '[none]'\<close>, two newlines, \<^verbatim>\<open>Latest:\<close>, a newline, the question.
\<close>

definition user_content :: "pystr \<Rightarrow> pystr option \<Rightarrow> pystr" where
  "user_content question history =
     lit ''History:\<newline>'' @ or_str history (lit ''[none]'') @
     lit ''\<newline>\<newline>Latest:\<newline>'' @ question"

definition rewrite_and_detect ::
  "env \<Rightarrow> pystr \<Rightarrow> pystr option \<Rightarrow> event list \<times> (pystr \<times> bool) result" where
  "rewrite_and_detect e question history =
     ([Normalizer question history],
      (case llm_process_query e (user_content question history) of
         Inl x \<Rightarrow> Inl x
       | Inr args \<Rightarrow>
           (case subscript args (lit ''rewritten_query'') of
              Inl x \<Rightarrow> Inl x
            | Inr v \<Rightarrow>
                (case strip_method v of
                   Inl x \<Rightarrow> Inl x
                 | Inr rewritten \<Rightarrow>
                     (case subscript args (lit ''is_escalation'') of
                        Inl x \<Rightarrow> Inl x
                      | Inr b \<Rightarrow>
                          (case print_str rewritten of
                             Inl x \<Rightarrow> Inl x
                           | Inr u \<Rightarrow> Inr (rewritten, py_bool b)))))))"

text \<open>
  \<^verbatim>\<open>extract_tags(query)\<close>: the comprehension
  \<^verbatim>\<open>[t.strip() for t in content.split(",") if t.strip()]\<close>; a \<^verbatim>\<open>None\<close> content has no
  \<^verbatim>\<open>split\<close>. Line 116 prints the list of tags, which cannot raise.
\<close>

definition keywords_prompt :: "pystr \<Rightarrow> pystr" where
  "keywords_prompt query =
     lit ''Extract 3-7 concise keywords (comma-separated, no extra text) '' @
     lit ''that best represent this query:\<newline>\<newline>'' @ query"

definition extract_tags :: "env \<Rightarrow> pystr \<Rightarrow> event list \<times> (pystr list) result" where
  "extract_tags e query =
     ([Tag_Extractor query],
      (case llm_keywords e (keywords_prompt query) of
         Inl x \<Rightarrow> Inl x
       | Inr None \<Rightarrow> Inl AttributeError
       | Inr (Some content) \<Rightarrow>
           Inr (map str_strip
                  (filter (\<lambda>t. str_strip t \<noteq> []) (str_split content (of_char CHR '',''))))))"

text \<open>
  \<^verbatim>\<open>retrieve(tags, k)\<close>: everything is inside \<^verbatim>\<open>try ... except Exception\<close>, also the
  \<^verbatim>\<open>KeyError\<close> of an object without a \<^verbatim>\<open>text\<close> property, so the helper always returns a
  list. The list holds the \<^verbatim>\<open>text\<close> properties as they are, strings or not; the
  \<^verbatim>\<open>print\<close> of line 124 writes their number.
\<close>

fun texts_of :: "(pystr \<times> json) list list \<Rightarrow> (json list) result" where
  "texts_of [] = Inr []"
| "texts_of (props # objs) =
     (case map_of props (lit ''text'') of
        None \<Rightarrow> Inl (KeyError (lit ''text''))
      | Some t \<Rightarrow> (case texts_of objs of Inl x \<Rightarrow> Inl x | Inr ts \<Rightarrow> Inr (t # ts)))"

definition retrieve :: "env \<Rightarrow> pystr list \<Rightarrow> int \<Rightarrow> event list \<times> json list" where
  "retrieve e tags k =
     (case (case near_text e tags k of Inl x \<Rightarrow> Inl x | Inr objs \<Rightarrow> texts_of objs) of
        Inr chunks \<Rightarrow> ([Retriever tags k], chunks)
      | Inl x \<Rightarrow> ([Retriever tags k, Log_error (lit ''Weaviate query error: %s'') x], []))"

text \<open>\<^verbatim>\<open>make_reason(text)\<close>: the content of the completion, stripped.\<close>

definition make_reason :: "env \<Rightarrow> pystr \<Rightarrow> event list \<times> pystr result" where
  "make_reason e text =
     ([Summarizer text],
      (case llm_summary e text of
         Inl x \<Rightarrow> Inl x
       | Inr None \<Rightarrow> Inl AttributeError
       | Inr (Some content) \<Rightarrow> Inr (str_strip content)))"

text \<open>
  \<^verbatim>\<open>write_escalation(caller, to, reason)\<close>: the handler is
  \<^verbatim>\<open>except mysql.connector.Error\<close>, so an exception of another class leaves the helper.
\<close>

definition write_escalation ::
  "env \<Rightarrow> pystr \<Rightarrow> pystr \<Rightarrow> pystr \<Rightarrow> event list \<times> unit result" where
  "write_escalation e caller to reason =
     (case db_insert e caller to reason of
        Inr u \<Rightarrow> ([Recorder caller to reason], Inr ())
      | Inl x \<Rightarrow>
          if is_mysql_error x
          then ([Recorder caller to reason, Log_error (lit ''DB insert failed: %s'') x], Inr ())
          else ([Recorder caller to reason], Inl x))"

section \<open>The endpoint\<close>

text \<open>
  \<^verbatim>\<open>get_context(req)\<close>, from line 164 on: the events of the turn in order, and either the
  exception that leaves the endpoint or the response. The join of line 180 is outside every
  handler. The two \<^verbatim>\<open>print\<close> calls of lines 162 and 163 come before the turn: the first
  writes a dict and cannot raise, the second writes \<^verbatim>\<open>caller_number\<close> as it is, and a request
  on which it raises ends there, before any helper runs, with no turn to speak of.
\<close>

definition get_context :: "env \<Rightarrow> rag_request \<Rightarrow> event list \<times> rag_response result" where
  "get_context e req =
     (let k = or_int (req_k req) (DEFAULT_K e);
          (t1, r1) = rewrite_and_detect e (req_question req) (req_history req)
      in case r1 of
           Inl x \<Rightarrow> (t1, Inl x)
         | Inr (rewritten, is_escalation) \<Rightarrow>
             if is_escalation then
               (let (t2, r2) = make_reason e (or_str (req_history req) (req_question req))
                in case r2 of
                     Inl x \<Rightarrow> (t1 @ t2, Inl x)
                   | Inr reason \<Rightarrow>
                       (let (t3, r3) =
                              write_escalation e
                                (or_str (req_caller_number req) (lit ''unknown''))
                                (or_str (req_escalated_to req) (lit ''unknown''))
                                reason
                        in case r3 of
                             Inl x \<Rightarrow> (t1 @ t2 @ t3, Inl x)
                           | Inr u \<Rightarrow>
                               (t1 @ t2 @ t3,
                                Inr \<lparr>resp_context = [], resp_is_escalation = True\<rparr>)))
             else
               (let (t4, r4) = extract_tags e rewritten
                in case r4 of
                     Inl x \<Rightarrow> (t1 @ t4, Inl x)
                   | Inr tags \<Rightarrow>
                       (let (t5, chunks) = retrieve e tags k
                        in case join_method (lit ''\<newline>---\<newline>'') chunks of
                             Inl x \<Rightarrow> (t1 @ t4 @ t5, Inl x)
                           | Inr context \<Rightarrow>
                               (t1 @ t4 @ t5,
                                Inr \<lparr>resp_context = context,
                                     resp_is_escalation = False\<rparr>))))"

section \<open>Test doubles\<close>

text \<open>
  A deterministic stub of every external service, for the concrete turns below: the
  normalizer rewrites to \<^verbatim>\<open>refund policy\<close> without escalation, the keyword call answers
  \<^verbatim>\<open>refund, policy, return\<close>, the index returns two chunks and the insert succeeds.
\<close>

definition stub_env :: env where
  "stub_env =
     \<lparr>DEFAULT_K = 4,
      llm_process_query = (\<lambda>m. Inr (JObj [(lit ''rewritten_query'', JStr (lit ''refund policy'')),
                                          (lit ''is_escalation'', JBool False)])),
      llm_keywords = (\<lambda>p. Inr (Some (lit ''refund, policy, return''))),
      llm_summary = (\<lambda>t. Inr (Some (lit ''CONVERSATION: refund. ESCALATION: asked for a human.''))),
      near_text = (\<lambda>tags k. Inr [[(lit ''text'', JStr (lit ''Chunk A''))],
                                [(lit ''text'', JStr (lit ''Chunk B''))]]),
      db_insert = (\<lambda>c t r. Inr ())\<rparr>"

text \<open>The same, with a normalizer that reports an explicit request for a human.\<close>

definition stub_env_escalation :: env where
  "stub_env_escalation =
     stub_env\<lparr>llm_process_query :=
       (\<lambda>m. Inr (JObj [(lit ''rewritten_query'', JStr (lit ''request human agent'')),
                         (lit ''is_escalation'', JBool True)]))\<rparr>"

definition req_refund :: rag_request where
  "req_refund =
     \<lparr>req_question = lit ''What is the refund policy?'', req_history = None,
      req_caller_number = None, req_escalated_to = None, req_k = Some 2\<rparr>"

definition req_human :: rag_request where
  "req_human =
     \<lparr>req_question = lit ''I want to speak to a human'', req_history = None,
      req_caller_number = None, req_escalated_to = None, req_k = None\<rparr>"

text \<open>Variants of the stub, one per failure the service has to deal with.\<close>

definition stub_env_search_down :: env where
  "stub_env_search_down =
     stub_env\<lparr>near_text := (\<lambda>tags k. Inl (OtherException (lit ''connection refused'')))\<rparr>"

text \<open>An index with an object that has no \<^verbatim>\<open>text\<close>, and one with a \<^verbatim>\<open>text\<close> that is null.\<close>

definition stub_env_missing_text :: env where
  "stub_env_missing_text =
     stub_env\<lparr>near_text :=
       (\<lambda>tags k. Inr [[(lit ''text'', JStr (lit ''Chunk A''))],
                        [(lit ''title'', JStr (lit ''untitled''))]])\<rparr>"

definition stub_env_null_text :: env where
  "stub_env_null_text =
     stub_env\<lparr>near_text :=
       (\<lambda>tags k. Inr [[(lit ''text'', JStr (lit ''Chunk A''))], [(lit ''text'', JNull)]])\<rparr>"

definition stub_env_summary_down :: env where
  "stub_env_summary_down =
     stub_env_escalation\<lparr>llm_summary := (\<lambda>t. Inl (OtherException (lit ''rate limit'')))\<rparr>"



definition stub_env_blank_rewrite :: env where
  "stub_env_blank_rewrite =
     stub_env\<lparr>llm_process_query :=
       (\<lambda>m. Inr (JObj [(lit ''rewritten_query'', JStr (lit ''   '')),
                         (lit ''is_escalation'', JBool False)]))\<rparr>"

definition stub_env_db_mysql_error :: env where
  "stub_env_db_mysql_error =
     stub_env_escalation\<lparr>db_insert := (\<lambda>c t r. Inl (MySQLError (lit ''server has gone away'')))\<rparr>"

definition stub_env_db_other_error :: env where
  "stub_env_db_other_error =
     stub_env_escalation\<lparr>db_insert := (\<lambda>c t r. Inl (OtherException (lit ''broken pipe'')))\<rparr>"

definition req_empty_history :: rag_request where
  "req_empty_history = req_human\<lparr>req_history := Some []\<rparr>"

definition req_with_history :: rag_request where
  "req_with_history =
     req_human\<lparr>req_history := Some (lit ''Caller asked about refunds.''),
                req_caller_number := Some (lit ''+15551234567''),
                req_escalated_to := Some (lit ''+18005559876'')\<rparr>"

section \<open>Observations on a turn\<close>

text \<open>
  The component an event is an invocation of (a log line is none), and the sequence of
  component invocations of a trace, which is what the call counts of a test double show.
\<close>

datatype component =
  The_Normalizer | The_Summarizer | The_Recorder | The_Tag_Extractor | The_Retriever

fun component_of :: "event \<Rightarrow> component option" where
  "component_of (Normalizer q h) = Some The_Normalizer"
| "component_of (Summarizer t) = Some The_Summarizer"
| "component_of (Recorder c t r) = Some The_Recorder"
| "component_of (Tag_Extractor q) = Some The_Tag_Extractor"
| "component_of (Retriever tags k) = Some The_Retriever"
| "component_of (Log_error f x) = None"

fun calls :: "event list \<Rightarrow> component list" where
  "calls [] = []"
| "calls (ev # t) = (case component_of ev of None \<Rightarrow> calls t | Some c \<Rightarrow> c # calls t)"

text \<open>The texts the Summarizer was invoked on, and the rows the Recorder was invoked with.\<close>

fun summarizer_calls :: "event list \<Rightarrow> pystr list" where
  "summarizer_calls [] = []"
| "summarizer_calls (Summarizer t # evs) = t # summarizer_calls evs"
| "summarizer_calls (ev # evs) = summarizer_calls evs"

fun recorder_calls :: "event list \<Rightarrow> (pystr \<times> pystr \<times> pystr) list" where
  "recorder_calls [] = []"
| "recorder_calls (Recorder c t r # evs) = (c, t, r) # recorder_calls evs"
| "recorder_calls (ev # evs) = recorder_calls evs"

text \<open>The tags and the limit the Retriever was invoked with.\<close>

fun retriever_calls :: "event list \<Rightarrow> (pystr list \<times> int) list" where
  "retriever_calls [] = []"
| "retriever_calls (Retriever tags k # evs) = (tags, k) # retriever_calls evs"
| "retriever_calls (ev # evs) = retriever_calls evs"





section \<open>Strings: what strip, split and join compute\<close>

text \<open>
  \<open>str_strip s\<close> is \<open>s\<close> without a prefix and a suffix of whitespace, and it neither starts
  nor ends with whitespace; \<open>str_split\<close> and \<open>str_join\<close> are inverse to each other on the
  pieces that do not contain the separator.
\<close>

lemma last_dropWhile: "dropWhile P xs \<noteq> [] \<Longrightarrow> last (dropWhile P xs) = last xs"
  by (induction xs) (auto split: if_splits)

lemma str_strip_Nil_iff: "str_strip s = [] \<longleftrightarrow> list_all py_isspace s"
proof
  assume "str_strip s = []"
  then have all: "\<forall>x\<in>set (dropWhile py_isspace s). py_isspace x"
    by (simp add: str_strip_def)
  have "dropWhile py_isspace s = []"
  proof (rule ccontr)
    assume ne: "dropWhile py_isspace s \<noteq> []"
    then have "hd (dropWhile py_isspace s) \<in> set (dropWhile py_isspace s)"
      by simp
    with all have "py_isspace (hd (dropWhile py_isspace s))" by blast
    with ne show False
      using hd_dropWhile [of py_isspace s] by simp
  qed
  then show "list_all py_isspace s"
    by (simp add: list_all_iff)
next
  assume "list_all py_isspace s"
  then have "dropWhile py_isspace s = []"
    by (simp add: list_all_iff)
  then show "str_strip s = []"
    by (simp only: str_strip_def rev.simps dropWhile.simps)
qed

lemma str_strip_last: "str_strip s \<noteq> [] \<Longrightarrow> \<not> py_isspace (last (str_strip s))"
  using hd_dropWhile [of py_isspace "rev (dropWhile py_isspace s)"]
  by (simp add: str_strip_def last_rev)

lemma str_strip_hd: "str_strip s \<noteq> [] \<Longrightarrow> \<not> py_isspace (hd (str_strip s))"
proof -
  assume ne: "str_strip s \<noteq> []"
  let ?d = "dropWhile py_isspace s"
  from ne have 1: "dropWhile py_isspace (rev ?d) \<noteq> []"
    by (simp add: str_strip_def)
  have 2: "?d \<noteq> []"
  proof
    assume "?d = []"
    with 1 show False by simp
  qed
  have "hd (str_strip s) = last (dropWhile py_isspace (rev ?d))"
    using 1 by (simp add: str_strip_def hd_rev)
  also have "\<dots> = last (rev ?d)"
    using 1 by (rule last_dropWhile)
  also have "\<dots> = hd ?d"
    using 2 by (simp add: last_rev)
  finally show ?thesis
    using 2 hd_dropWhile [of py_isspace s] by simp
qed

lemma str_strip_decompose:
  "s = takeWhile py_isspace s @ str_strip s @
       rev (takeWhile py_isspace (rev (dropWhile py_isspace s)))"
proof -
  let ?d = "dropWhile py_isspace s"
  have "rev (takeWhile py_isspace (rev ?d) @ dropWhile py_isspace (rev ?d)) = rev (rev ?d)"
    by (simp only: takeWhile_dropWhile_id)
  then have "rev (dropWhile py_isspace (rev ?d)) @ rev (takeWhile py_isspace (rev ?d)) = ?d"
    by (simp only: rev_append rev_rev_ident)
  then have "str_strip s @ rev (takeWhile py_isspace (rev ?d)) = ?d"
    by (simp only: str_strip_def)
  moreover have "takeWhile py_isspace s @ ?d = s"
    by (rule takeWhile_dropWhile_id)
  ultimately show ?thesis by simp
qed

lemma str_strip_surrounded:
  "\<exists>a b. s = a @ str_strip s @ b \<and> list_all py_isspace a \<and> list_all py_isspace b"
proof -
  have "list_all py_isspace (takeWhile py_isspace s)"
    by (auto simp: list_all_iff dest: set_takeWhileD)
  moreover have "list_all py_isspace
      (rev (takeWhile py_isspace (rev (dropWhile py_isspace s))))"
    by (auto simp: list_all_iff dest: set_takeWhileD)
  ultimately show ?thesis
    using str_strip_decompose [of s] by blast
qed

lemma str_split_not_Nil: "str_split s c \<noteq> []"
  by (induction s) auto

lemma str_join_Cons: "ys \<noteq> [] \<Longrightarrow> str_join sep (x # ys) = x @ sep @ str_join sep ys"
  by (cases ys) auto

lemma str_join_split: "str_join [c] (str_split s c) = s"
proof (induction s)
  case Nil
  show ?case by simp
next
  case (Cons x xs)
  obtain t ts where ts: "str_split xs c = t # ts"
    using str_split_not_Nil [of xs c] by (cases "str_split xs c") auto
  show ?case
  proof (cases "x = c")
    case True
    with Cons ts show ?thesis by (simp add: str_join_Cons)
  next
    case False
    with Cons ts show ?thesis by (cases ts) auto
  qed
qed

lemma str_split_no_separator: "t \<in> set (str_split s c) \<Longrightarrow> c \<notin> set t"
proof (induction s arbitrary: t)
  case Nil
  then show ?case by simp
next
  case (Cons x xs)
  obtain u us where us: "str_split xs c = u # us"
    using str_split_not_Nil [of xs c] by (cases "str_split xs c") auto
  with Cons show ?case
    by (auto split: if_splits)
qed

lemma str_split_plain: "c \<notin> set t \<Longrightarrow> str_split t c = [t]"
  by (induction t) auto

lemma str_split_append: "c \<notin> set t \<Longrightarrow> str_split (t @ c # rest) c = t # str_split rest c"
  by (induction t) auto

lemma str_split_join:
  "xs \<noteq> [] \<Longrightarrow> \<forall>t\<in>set xs. c \<notin> set t \<Longrightarrow> str_split (str_join [c] xs) c = xs"
proof (induction xs)
  case Nil
  then show ?case by simp
next
  case (Cons x xs)
  show ?case
  proof (cases "xs = []")
    case True
    with Cons.prems show ?thesis by (simp add: str_split_plain)
  next
    case False
    with Cons show ?thesis by (simp add: str_join_Cons str_split_append)
  qed
qed

lemma filter_map_strip:
  "map str_strip (filter (\<lambda>t. str_strip t \<noteq> []) xs) = filter (\<lambda>t. t \<noteq> []) (map str_strip xs)"
  by (induction xs) auto

text \<open>The two sets of code points, as sets.\<close>

lemma py_isspace_iff:
  "py_isspace c \<longleftrightarrow>
     c \<in> {9..13} \<union> {28..32} \<union> {133, 160, 5760} \<union> {8192..8202} \<union>
         {8232, 8233, 8239, 8287, 12288}"
  by (auto simp: py_isspace_def)

lemma is_surrogate_iff: "is_surrogate c \<longleftrightarrow> c \<in> {55296..57343}"
  by (simp add: is_surrogate_def)

text \<open>The join of a list of values returns exactly on the lists of strings.\<close>

lemma the_strings_map_JStr: "the_strings (map JStr ss) = Inr ss"
  by (induction ss) simp_all

lemma the_strings_InrD: "the_strings vs = Inr ss \<Longrightarrow> vs = map JStr ss"
proof (induction vs arbitrary: ss)
  case Nil
  then show ?case by simp
next
  case (Cons v vs)
  show ?case
  proof (cases v)
    case (JStr t)
    with Cons.prems obtain ss' where "the_strings vs = Inr ss'" and "ss = t # ss'"
      by (auto split: sum.splits)
    with Cons.IH JStr show ?thesis by simp
  qed (use Cons.prems in simp_all)
qed

lemma the_strings_Inr: "the_strings vs = Inr ss \<longleftrightarrow> vs = map JStr ss"
  using the_strings_InrD [of vs ss] the_strings_map_JStr [of ss] by auto

lemma the_strings_Inl: "the_strings vs = Inl x \<Longrightarrow> x = TypeError"
proof (induction vs)
  case Nil
  then show ?case by simp
next
  case (Cons v vs)
  then show ?case
    by (cases v) (auto split: sum.splits)
qed

lemma join_method_strings: "join_method sep (map JStr ss) = Inr (str_join sep ss)"
  by (simp add: join_method_def the_strings_map_JStr)

lemma join_method_Nil: "join_method sep [] = Inr []"
  by (simp add: join_method_def)

lemma join_method_not_strings:
  assumes "\<forall>ss. vs \<noteq> map JStr ss"
  shows "join_method sep vs = Inl TypeError"
proof (cases "the_strings vs")
  case (Inl x)
  with the_strings_Inl [OF Inl] show ?thesis
    by (simp add: join_method_def)
next
  case (Inr ss)
  with assms the_strings_Inr [of vs ss] show ?thesis by simp
qed

section \<open>The shape of a turn\<close>

text \<open>
  The three ways through \<^verbatim>\<open>get_context\<close>, by what the normalizer returned: it raised,
  it reported an escalation, it reported none.
\<close>

lemma lit_eq_iff: "lit a = lit b \<longleftrightarrow> a = b"
  unfolding lit_def by (simp add: inj_of_char)

lemma fst_rewrite_and_detect: "fst (rewrite_and_detect e q h) = [Normalizer q h]"
  by (simp add: rewrite_and_detect_def)

lemma fst_extract_tags: "fst (extract_tags e q) = [Tag_Extractor q]"
  by (simp add: extract_tags_def)

lemma fst_make_reason: "fst (make_reason e t) = [Summarizer t]"
  by (simp add: make_reason_def)

lemma calls_retrieve: "calls (fst (retrieve e tags k)) = [The_Retriever]"
  by (simp add: retrieve_def split: sum.splits)

lemma calls_write_escalation: "calls (fst (write_escalation e c t r)) = [The_Recorder]"
  by (simp add: write_escalation_def split: sum.splits)


lemma get_context_escalation:
  assumes "snd (rewrite_and_detect e (req_question req) (req_history req)) = Inr (rw, True)"
  shows "get_context e req =
    (case snd (make_reason e (or_str (req_history req) (req_question req))) of
       Inl x \<Rightarrow>
         ([Normalizer (req_question req) (req_history req),
           Summarizer (or_str (req_history req) (req_question req))], Inl x)
     | Inr reason \<Rightarrow>
         (Normalizer (req_question req) (req_history req) #
          Summarizer (or_str (req_history req) (req_question req)) #
          fst (write_escalation e (or_str (req_caller_number req) (lit ''unknown''))
                 (or_str (req_escalated_to req) (lit ''unknown'')) reason),
          (case snd (write_escalation e (or_str (req_caller_number req) (lit ''unknown''))
                       (or_str (req_escalated_to req) (lit ''unknown'')) reason) of
             Inl x \<Rightarrow> Inl x
           | Inr u \<Rightarrow> Inr \<lparr>resp_context = [], resp_is_escalation = True\<rparr>)))"
  using assms
  by (simp add: get_context_def Let_def case_prod_beta fst_rewrite_and_detect fst_make_reason
        split: sum.splits)

lemma get_context_retrieval:
  assumes "snd (rewrite_and_detect e (req_question req) (req_history req)) = Inr (rw, False)"
  shows "get_context e req =
    (case snd (extract_tags e rw) of
       Inl x \<Rightarrow> ([Normalizer (req_question req) (req_history req), Tag_Extractor rw], Inl x)
     | Inr tags \<Rightarrow>
         (Normalizer (req_question req) (req_history req) # Tag_Extractor rw #
          fst (retrieve e tags (or_int (req_k req) (DEFAULT_K e))),
          (case join_method (lit ''\<newline>---\<newline>'')
                  (snd (retrieve e tags (or_int (req_k req) (DEFAULT_K e)))) of
             Inl x \<Rightarrow> Inl x
           | Inr context \<Rightarrow>
               Inr \<lparr>resp_context = context, resp_is_escalation = False\<rparr>)))"
  using assms
  by (simp add: get_context_def Let_def case_prod_beta fst_rewrite_and_detect fst_extract_tags
        split: sum.splits)

section \<open>The stubbed turns\<close>

text \<open>
  What the helpers compute on the test doubles. A helper only reads its own client, so a
  double that differs elsewhere gives the same result; \<open>str_split\<close> is unfolded one
  character at a time.
\<close>

lemma str_split_Cons_case:
  "str_split (x # xs) c =
     (if x = c then [] # str_split xs c
      else (case str_split xs c of [] \<Rightarrow> [[x]] | t # ts \<Rightarrow> (x # t) # ts))"
  using str_split_not_Nil [of xs c] by (cases "str_split xs c") auto

lemma rewrite_and_detect_cong:
  "llm_process_query e' = llm_process_query e \<Longrightarrow>
   rewrite_and_detect e' q h = rewrite_and_detect e q h"
  by (simp add: rewrite_and_detect_def)

lemma extract_tags_cong:
  "llm_keywords e' = llm_keywords e \<Longrightarrow> extract_tags e' q = extract_tags e q"
  by (simp add: extract_tags_def)

lemma make_reason_cong:
  "llm_summary e' = llm_summary e \<Longrightarrow> make_reason e' t = make_reason e t"
  by (simp add: make_reason_def)

lemma normalizer_stub:
  "snd (rewrite_and_detect stub_env q h) = Inr (lit ''refund policy'', False)"
  by (simp add: rewrite_and_detect_def stub_env_def lit_def str_strip_def py_isspace_def
        print_str_def is_surrogate_def)

lemma normalizer_stub_escalation:
  "snd (rewrite_and_detect stub_env_escalation q h) = Inr (lit ''request human agent'', True)"
  by (simp add: rewrite_and_detect_def stub_env_escalation_def lit_def str_strip_def
        py_isspace_def print_str_def is_surrogate_def)

lemma split_stub:
  "str_split (lit ''refund, policy, return'') (of_char CHR '','') =
     [lit ''refund'', lit '' policy'', lit '' return'']"
  by (simp add: lit_def str_split_Cons_case del: str_split.simps(2))

lemma tags_stub:
  "snd (extract_tags stub_env q) = Inr [lit ''refund'', lit ''policy'', lit ''return'']"
proof -
  have "snd (extract_tags stub_env q) =
      Inr (map str_strip (filter (\<lambda>t. str_strip t \<noteq> [])
             [lit ''refund'', lit '' policy'', lit '' return'']))"
    by (simp only: extract_tags_def stub_env_def env.simps snd_conv sum.case option.case
          split_stub)
  also have "\<dots> = Inr [lit ''refund'', lit ''policy'', lit ''return'']"
    by (simp add: lit_def str_strip_def py_isspace_def)
  finally show ?thesis .
qed

lemma summary_stub:
  "snd (make_reason stub_env t) =
     Inr (lit ''CONVERSATION: refund. ESCALATION: asked for a human.'')"
  by (simp add: make_reason_def stub_env_def lit_def str_strip_def py_isspace_def)

section \<open>C1: escalation and empty context\<close>

text \<open>
  C1, as amended. Every turn that returns with \<^verbatim>\<open>is_escalation=true\<close> returns the empty
  context. The converse, that an empty context comes only with \<^verbatim>\<open>is_escalation=true\<close>,
  does not hold: see the turn after the theorem.
\<close>

theorem C1_escalation_has_empty_context:
  assumes "snd (get_context e req) = Inr resp" and "resp_is_escalation resp"
  shows "resp_context resp = []"
  using assms
  by (auto simp: get_context_def Let_def case_prod_beta split: sum.splits if_splits)

text \<open>The escalation turn of the stub: the caller asks for a human, no history.\<close>

theorem C1_escalation_has_empty_context_witness:
  "snd (get_context stub_env_escalation req_human) =
     Inr \<lparr>resp_context = [], resp_is_escalation = True\<rparr> \<and>
   resp_is_escalation \<lparr>resp_context = [], resp_is_escalation = True\<rparr> \<and>
   resp_context \<lparr>resp_context = [], resp_is_escalation = True\<rparr> = []"
proof -
  have s: "snd (make_reason stub_env_escalation t) =
             Inr (lit ''CONVERSATION: refund. ESCALATION: asked for a human.'')" for t
    using make_reason_cong [of stub_env_escalation stub_env t] summary_stub [of t]
    by (simp add: stub_env_escalation_def)
  have w: "write_escalation stub_env_escalation c t r = ([Recorder c t r], Inr ())" for c t r
    by (simp add: write_escalation_def stub_env_escalation_def stub_env_def)
  have h1: "snd (get_context stub_env_escalation req_human) =
              Inr \<lparr>resp_context = [], resp_is_escalation = True\<rparr>"
    by (simp add: get_context_escalation [OF normalizer_stub_escalation] s w)
  have h2: "resp_is_escalation \<lparr>resp_context = [], resp_is_escalation = True\<rparr>"
    by simp
  show ?thesis
    using h1 h2 C1_escalation_has_empty_context [OF h1 h2] by simp
qed

text \<open>
  C1 as stated fails on a turn whose vector search is down: the normalizer reports no
  escalation, three tags are extracted, the search raises, and the turn returns the empty
  context with \<^verbatim>\<open>is_escalation=false\<close>.
\<close>

theorem C1_empty_context_without_escalation:
  "snd (get_context stub_env_search_down req_refund) =
     Inr \<lparr>resp_context = [], resp_is_escalation = False\<rparr>"
proof -
  have n: "snd (rewrite_and_detect stub_env_search_down (req_question req_refund)
                 (req_history req_refund)) = Inr (lit ''refund policy'', False)"
    using rewrite_and_detect_cong [of stub_env_search_down stub_env] normalizer_stub
    by (simp add: stub_env_search_down_def)
  have t: "snd (extract_tags stub_env_search_down (lit ''refund policy'')) =
             Inr [lit ''refund'', lit ''policy'', lit ''return'']"
    using extract_tags_cong [of stub_env_search_down stub_env] tags_stub
    by (simp add: stub_env_search_down_def)
  have r: "snd (retrieve stub_env_search_down tags k) = []" for tags k
    by (simp add: retrieve_def stub_env_search_down_def)
  show ?thesis
    by (simp add: get_context_retrieval [OF n] t r join_method_Nil)
qed

section \<open>C2: the two branches\<close>

text \<open>
  C2, as amended. Once the normalizer has returned, the components invoked in the turn, in
  order, are: on \<^verbatim>\<open>is_escalation=true\<close> the Normalizer, the Summarizer and, when the
  Summarizer returned, the Recorder; on \<^verbatim>\<open>is_escalation=false\<close> the Normalizer, the Tag
  Extractor and, when the Tag Extractor returned, the Retriever. So an escalation turn never
  invokes the Tag Extractor or the Retriever and a retrieval turn never invokes the
  Summarizer or the Recorder, but the second component of a branch is invoked only after the
  first one has returned.
\<close>

theorem C2_branch_calls:
  assumes "snd (rewrite_and_detect e (req_question req) (req_history req)) = Inr (rw, esc)"
  shows "calls (fst (get_context e req)) =
    (if esc then
       (case snd (make_reason e (or_str (req_history req) (req_question req))) of
          Inl x \<Rightarrow> [The_Normalizer, The_Summarizer]
        | Inr reason \<Rightarrow> [The_Normalizer, The_Summarizer, The_Recorder])
     else
       (case snd (extract_tags e rw) of
          Inl x \<Rightarrow> [The_Normalizer, The_Tag_Extractor]
        | Inr tags \<Rightarrow> [The_Normalizer, The_Tag_Extractor, The_Retriever]))"
proof (cases esc)
  case True
  with assms have "snd (rewrite_and_detect e (req_question req) (req_history req)) =
      Inr (rw, True)" by simp
  from get_context_escalation [OF this] True show ?thesis
    by (simp add: calls_write_escalation split: sum.splits)
next
  case False
  with assms have "snd (rewrite_and_detect e (req_question req) (req_history req)) =
      Inr (rw, False)" by simp
  from get_context_retrieval [OF this] False show ?thesis
    by (simp add: calls_retrieve split: sum.splits)
qed

text \<open>The retrieval turn of the stub: Normalizer, Tag Extractor, Retriever.\<close>

theorem C2_branch_calls_witness:
  "snd (rewrite_and_detect stub_env (req_question req_refund) (req_history req_refund)) =
     Inr (lit ''refund policy'', False) \<and>
   calls (fst (get_context stub_env req_refund)) =
     [The_Normalizer, The_Tag_Extractor, The_Retriever]"
proof -
  have h: "snd (rewrite_and_detect stub_env (req_question req_refund)
                 (req_history req_refund)) = Inr (lit ''refund policy'', False)"
    by (rule normalizer_stub)
  show ?thesis
    using h C2_branch_calls [OF h] by (simp add: tags_stub)
qed

text \<open>
  C2 as stated fails on an escalation turn whose Summarizer raises: the normalizer reports
  \<^verbatim>\<open>is_escalation=true\<close>, the Summarizer is invoked, and the Recorder never is.
\<close>

theorem C2_escalation_without_recorder:
  "snd (rewrite_and_detect stub_env_summary_down (req_question req_human)
         (req_history req_human)) = Inr (lit ''request human agent'', True) \<and>
   get_context stub_env_summary_down req_human =
     ([Normalizer (lit ''I want to speak to a human'') None,
       Summarizer (lit ''I want to speak to a human'')],
      Inl (OtherException (lit ''rate limit''))) \<and>
   calls (fst (get_context stub_env_summary_down req_human)) =
     [The_Normalizer, The_Summarizer]"
proof -
  have n: "snd (rewrite_and_detect stub_env_summary_down (req_question req_human)
                 (req_history req_human)) = Inr (lit ''request human agent'', True)"
    using rewrite_and_detect_cong [of stub_env_summary_down stub_env_escalation]
      normalizer_stub_escalation
    by (simp add: stub_env_summary_down_def)
  have s: "snd (make_reason stub_env_summary_down t) =
             Inl (OtherException (lit ''rate limit''))" for t
    by (simp add: make_reason_def stub_env_summary_down_def)
  have g: "get_context stub_env_summary_down req_human =
     ([Normalizer (lit ''I want to speak to a human'') None,
       Summarizer (lit ''I want to speak to a human'')],
      Inl (OtherException (lit ''rate limit'')))"
    by (simp add: get_context_escalation [OF n] s) (simp add: req_human_def)
  show ?thesis
    using n g by simp
qed

section \<open>C3: arguments the normalizer cannot use\<close>






section \<open>C4: a failing vector search\<close>

text \<open>
  C4. On a turn without escalation whose tags were extracted, if the vector-search call
  raises, whatever the exception, \<^verbatim>\<open>retrieve\<close> returns the empty list, having logged the
  exception, and the turn returns the empty context with \<^verbatim>\<open>is_escalation=false\<close>.
\<close>

theorem C4_search_error_gives_empty_context:
  assumes "snd (rewrite_and_detect e (req_question req) (req_history req)) = Inr (rw, False)"
    and "snd (extract_tags e rw) = Inr tags"
    and "near_text e tags (or_int (req_k req) (DEFAULT_K e)) = Inl x"
  shows "retrieve e tags (or_int (req_k req) (DEFAULT_K e)) =
           ([Retriever tags (or_int (req_k req) (DEFAULT_K e)),
             Log_error (lit ''Weaviate query error: %s'') x], []) \<and>
         snd (get_context e req) =
           Inr \<lparr>resp_context = [], resp_is_escalation = False\<rparr>"
proof -
  have r: "retrieve e tags (or_int (req_k req) (DEFAULT_K e)) =
           ([Retriever tags (or_int (req_k req) (DEFAULT_K e)),
             Log_error (lit ''Weaviate query error: %s'') x], [])"
    using assms(3) by (simp add: retrieve_def)
  show ?thesis
    using r by (simp add: get_context_retrieval [OF assms(1)] assms(2) join_method_Nil)
qed

text \<open>The refund question with \<^verbatim>\<open>k=2\<close>, on an index that refuses the connection.\<close>

theorem C4_search_error_gives_empty_context_witness:
  "retrieve stub_env_search_down [lit ''refund'', lit ''policy'', lit ''return''] 2 =
     ([Retriever [lit ''refund'', lit ''policy'', lit ''return''] 2,
       Log_error (lit ''Weaviate query error: %s'')
         (OtherException (lit ''connection refused''))], []) \<and>
   snd (get_context stub_env_search_down req_refund) =
     Inr \<lparr>resp_context = [], resp_is_escalation = False\<rparr>"
proof -
  have n: "snd (rewrite_and_detect stub_env_search_down (req_question req_refund)
                 (req_history req_refund)) = Inr (lit ''refund policy'', False)"
    using rewrite_and_detect_cong [of stub_env_search_down stub_env] normalizer_stub
    by (simp add: stub_env_search_down_def)
  have t: "snd (extract_tags stub_env_search_down (lit ''refund policy'')) =
             Inr [lit ''refund'', lit ''policy'', lit ''return'']"
    using extract_tags_cong [of stub_env_search_down stub_env] tags_stub
    by (simp add: stub_env_search_down_def)
  have s: "near_text stub_env_search_down [lit ''refund'', lit ''policy'', lit ''return'']
             (or_int (req_k req_refund) (DEFAULT_K stub_env_search_down)) =
           Inl (OtherException (lit ''connection refused''))"
    by (simp add: stub_env_search_down_def)
  have k: "or_int (req_k req_refund) (DEFAULT_K stub_env_search_down) = 2"
    by (simp add: req_refund_def)
  show ?thesis
    using C4_search_error_gives_empty_context [OF n t s] by (simp add: k)
qed

section \<open>C5: a failing insert\<close>

text \<open>
  C5, as amended. On an escalation turn whose summary was produced, if the insert raises a
  \<^verbatim>\<open>mysql.connector.Error\<close>, \<^verbatim>\<open>write_escalation\<close> logs it and returns, and the turn
  returns the empty context with \<^verbatim>\<open>is_escalation=true\<close>.
\<close>

theorem C5_mysql_error_is_swallowed:
  assumes "snd (rewrite_and_detect e (req_question req) (req_history req)) = Inr (rw, True)"
    and "snd (make_reason e (or_str (req_history req) (req_question req))) = Inr reason"
    and "db_insert e (or_str (req_caller_number req) (lit ''unknown''))
           (or_str (req_escalated_to req) (lit ''unknown'')) reason = Inl x"
    and "is_mysql_error x"
  shows "write_escalation e (or_str (req_caller_number req) (lit ''unknown''))
           (or_str (req_escalated_to req) (lit ''unknown'')) reason =
           ([Recorder (or_str (req_caller_number req) (lit ''unknown''))
               (or_str (req_escalated_to req) (lit ''unknown'')) reason,
             Log_error (lit ''DB insert failed: %s'') x], Inr ()) \<and>
         snd (get_context e req) =
           Inr \<lparr>resp_context = [], resp_is_escalation = True\<rparr>"
proof -
  have w: "write_escalation e (or_str (req_caller_number req) (lit ''unknown''))
           (or_str (req_escalated_to req) (lit ''unknown'')) reason =
           ([Recorder (or_str (req_caller_number req) (lit ''unknown''))
               (or_str (req_escalated_to req) (lit ''unknown'')) reason,
             Log_error (lit ''DB insert failed: %s'') x], Inr ())"
    using assms(3,4) by (simp add: write_escalation_def)
  show ?thesis
    using w by (simp add: get_context_escalation [OF assms(1)] assms(2))
qed

text \<open>The escalation turn of the stub on a database whose server has gone away.\<close>

theorem C5_mysql_error_is_swallowed_witness:
  "write_escalation stub_env_db_mysql_error (lit ''unknown'') (lit ''unknown'')
     (lit ''CONVERSATION: refund. ESCALATION: asked for a human.'') =
     ([Recorder (lit ''unknown'') (lit ''unknown'')
         (lit ''CONVERSATION: refund. ESCALATION: asked for a human.''),
       Log_error (lit ''DB insert failed: %s'') (MySQLError (lit ''server has gone away''))],
      Inr ()) \<and>
   snd (get_context stub_env_db_mysql_error req_human) =
     Inr \<lparr>resp_context = [], resp_is_escalation = True\<rparr>"
proof -
  have n: "snd (rewrite_and_detect stub_env_db_mysql_error (req_question req_human)
                 (req_history req_human)) = Inr (lit ''request human agent'', True)"
    using rewrite_and_detect_cong [of stub_env_db_mysql_error stub_env_escalation]
      normalizer_stub_escalation
    by (simp add: stub_env_db_mysql_error_def)
  have s: "snd (make_reason stub_env_db_mysql_error
                 (or_str (req_history req_human) (req_question req_human))) =
             Inr (lit ''CONVERSATION: refund. ESCALATION: asked for a human.'')"
    using make_reason_cong [of stub_env_db_mysql_error stub_env] summary_stub
    by (simp add: stub_env_db_mysql_error_def stub_env_escalation_def)
  have d: "db_insert stub_env_db_mysql_error
             (or_str (req_caller_number req_human) (lit ''unknown''))
             (or_str (req_escalated_to req_human) (lit ''unknown''))
             (lit ''CONVERSATION: refund. ESCALATION: asked for a human.'') =
           Inl (MySQLError (lit ''server has gone away''))"
    by (simp add: stub_env_db_mysql_error_def)
  have m: "is_mysql_error (MySQLError (lit ''server has gone away''))"
    by simp
  have u: "or_str (req_caller_number req_human) (lit ''unknown'') = lit ''unknown''"
          "or_str (req_escalated_to req_human) (lit ''unknown'') = lit ''unknown''"
    by (simp_all add: req_human_def)
  show ?thesis
    using C5_mysql_error_is_swallowed [OF n s d m] by (simp add: u)
qed

text \<open>
  C5 as stated fails when the insert raises an exception that is not a
  \<^verbatim>\<open>mysql.connector.Error\<close>: the handler does not apply, \<^verbatim>\<open>write_escalation\<close> raises to
  its caller and the turn ends with that exception instead of a response.
\<close>

theorem C5_other_error_leaves_the_turn:
  "write_escalation stub_env_db_other_error (lit ''unknown'') (lit ''unknown'')
     (lit ''CONVERSATION: refund. ESCALATION: asked for a human.'') =
     ([Recorder (lit ''unknown'') (lit ''unknown'')
         (lit ''CONVERSATION: refund. ESCALATION: asked for a human.'')],
      Inl (OtherException (lit ''broken pipe''))) \<and>
   snd (get_context stub_env_db_other_error req_human) =
     Inl (OtherException (lit ''broken pipe''))"
proof -
  have n: "snd (rewrite_and_detect stub_env_db_other_error (req_question req_human)
                 (req_history req_human)) = Inr (lit ''request human agent'', True)"
    using rewrite_and_detect_cong [of stub_env_db_other_error stub_env_escalation]
      normalizer_stub_escalation
    by (simp add: stub_env_db_other_error_def)
  have s: "snd (make_reason stub_env_db_other_error t) =
             Inr (lit ''CONVERSATION: refund. ESCALATION: asked for a human.'')" for t
    using make_reason_cong [of stub_env_db_other_error stub_env t] summary_stub [of t]
    by (simp add: stub_env_db_other_error_def stub_env_escalation_def)
  have w: "write_escalation stub_env_db_other_error c t r =
             ([Recorder c t r], Inl (OtherException (lit ''broken pipe'')))" for c t r
    by (simp add: write_escalation_def stub_env_db_other_error_def)
  show ?thesis
    by (simp add: get_context_escalation [OF n] s w)
qed

section \<open>C6: the context of a retrieval turn\<close>

lemma str_join_closed:
  "str_join sep ts = (case ts of [] \<Rightarrow> [] | c # cs \<Rightarrow> c @ concat (map (\<lambda>d. sep @ d) cs))"
  by (induction sep ts rule: str_join.induct) simp_all

lemma texts_of_all:
  "list_all (\<lambda>props. map_of props (lit ''text'') \<noteq> None) objs \<Longrightarrow>
   texts_of objs = Inr (map (\<lambda>props. the (map_of props (lit ''text''))) objs)"
  by (induction objs) auto

lemma texts_of_missing:
  "\<not> list_all (\<lambda>props. map_of props (lit ''text'') \<noteq> None) objs \<Longrightarrow>
   \<exists>x. texts_of objs = Inl x"
  by (induction objs) (auto split: option.splits sum.splits)

lemma snd_retrieve:
  "snd (retrieve e tags k) =
     (case near_text e tags k of
        Inl x \<Rightarrow> []
      | Inr objs \<Rightarrow>
          if list_all (\<lambda>props. map_of props (lit ''text'') \<noteq> None) objs
          then map (\<lambda>props. the (map_of props (lit ''text''))) objs
          else [])"
proof (cases "near_text e tags k")
  case (Inl x)
  then show ?thesis by (simp add: retrieve_def)
next
  case (Inr objs)
  show ?thesis
  proof (cases "list_all (\<lambda>props. map_of props (lit ''text'') \<noteq> None) objs")
    case True
    with Inr texts_of_all [OF True] show ?thesis by (simp add: retrieve_def)
  next
    case False
    with Inr texts_of_missing [OF False] show ?thesis by (auto simp: retrieve_def)
  qed
qed

text \<open>
  C6. On a turn without escalation, whenever a response is returned, the tags were
  extracted, the chunks that \<^verbatim>\<open>retrieve\<close> returned are strings, and the context is these
  strings in their order, the first one followed by each further one behind a newline, three
  hyphens and a newline, with \<^verbatim>\<open>is_escalation\<close> false; and a response is returned whenever
  the tags were extracted and the chunks are strings. When a chunk is not a string the join
  raises \<^verbatim>\<open>TypeError\<close> and no response is returned. The chunks that \<^verbatim>\<open>retrieve\<close> returns
  are the \<^verbatim>\<open>text\<close> properties of the objects of the search, in the order of the index, when
  the search returned and every object has the property, and none otherwise. The join of
  \<^verbatim>\<open>Chunk A\<close> and \<^verbatim>\<open>Chunk B\<close> is the two texts around one delimiter, and the join of no chunk
  is the empty string.
\<close>

theorem C6_context_is_joined_chunks:
  assumes "snd (rewrite_and_detect e (req_question req) (req_history req)) = Inr (rw, False)"
  shows "(\<forall>resp. snd (get_context e req) = Inr resp \<longrightarrow>
            (\<exists>tags texts.
               snd (extract_tags e rw) = Inr tags \<and>
               snd (retrieve e tags (or_int (req_k req) (DEFAULT_K e))) = map JStr texts \<and>
               resp_context resp =
                 (case texts of
                    [] \<Rightarrow> []
                  | c # cs \<Rightarrow> c @ concat (map (\<lambda>d. lit ''\<newline>---\<newline>'' @ d) cs)) \<and>
               \<not> resp_is_escalation resp)) \<and>
         (\<forall>tags texts.
            snd (extract_tags e rw) = Inr tags \<and>
            snd (retrieve e tags (or_int (req_k req) (DEFAULT_K e))) = map JStr texts \<longrightarrow>
            snd (get_context e req) =
              Inr \<lparr>resp_context =
                     (case texts of
                        [] \<Rightarrow> []
                      | c # cs \<Rightarrow> c @ concat (map (\<lambda>d. lit ''\<newline>---\<newline>'' @ d) cs)),
                   resp_is_escalation = False\<rparr>) \<and>
         (\<forall>tags.
            snd (extract_tags e rw) = Inr tags \<and>
            (\<forall>texts. snd (retrieve e tags (or_int (req_k req) (DEFAULT_K e))) \<noteq>
               map JStr texts) \<longrightarrow>
            snd (get_context e req) = Inl TypeError) \<and>
         (\<forall>tags k.
            snd (retrieve e tags k) =
              (case near_text e tags k of
                 Inl x \<Rightarrow> []
               | Inr objs \<Rightarrow>
                   if list_all (\<lambda>props. map_of props (lit ''text'') \<noteq> None) objs
                   then map (\<lambda>props. the (map_of props (lit ''text''))) objs
                   else [])) \<and>
         str_join (lit ''\<newline>---\<newline>'') [lit ''Chunk A'', lit ''Chunk B''] =
           lit ''Chunk A\<newline>---\<newline>Chunk B'' \<and>
         str_join (lit ''\<newline>---\<newline>'') [] = []"
proof -
  let ?k = "or_int (req_k req) (DEFAULT_K e)"
  let ?sep = "lit ''\<newline>---\<newline>''"
  let ?joined = "\<lambda>texts. case texts of [] \<Rightarrow> [] | c # cs \<Rightarrow> c @ concat (map (\<lambda>d. ?sep @ d) cs)"
  note g = get_context_retrieval [OF assms]
  have b: "snd (get_context e req) =
             Inr \<lparr>resp_context = ?joined texts, resp_is_escalation = False\<rparr>"
    if "snd (extract_tags e rw) = Inr tags" and "snd (retrieve e tags ?k) = map JStr texts"
    for tags texts
    using that by (simp add: g join_method_strings str_join_closed [of ?sep texts])
  have c: "snd (get_context e req) = Inl TypeError"
    if "snd (extract_tags e rw) = Inr tags"
      and "\<forall>texts. snd (retrieve e tags ?k) \<noteq> map JStr texts"
    for tags
    using that(1) join_method_not_strings [OF that(2), of ?sep] by (simp add: g)
  have a: "\<exists>tags texts. snd (extract_tags e rw) = Inr tags \<and>
             snd (retrieve e tags ?k) = map JStr texts \<and>
             resp_context resp = ?joined texts \<and> \<not> resp_is_escalation resp"
    if r: "snd (get_context e req) = Inr resp" for resp
  proof (cases "snd (extract_tags e rw)")
    case (Inl x)
    with r show ?thesis by (simp add: g)
  next
    case (Inr tags)
    show ?thesis
    proof (cases "\<exists>texts. snd (retrieve e tags ?k) = map JStr texts")
      case True
      then obtain texts where t: "snd (retrieve e tags ?k) = map JStr texts" ..
      from b [OF Inr t] r have "resp = \<lparr>resp_context = ?joined texts, resp_is_escalation = False\<rparr>"
        by simp
      with Inr t show ?thesis by auto
    next
      case False
      then have "\<forall>texts. snd (retrieve e tags ?k) \<noteq> map JStr texts" by simp
      from c [OF Inr this] r show ?thesis by simp
    qed
  qed
  have d: "str_join ?sep [lit ''Chunk A'', lit ''Chunk B''] =
             lit ''Chunk A\<newline>---\<newline>Chunk B''"
    by (simp add: lit_def)
  have e: "str_join ?sep [] = []"
    by simp
  from a b c d e snd_retrieve show ?thesis
    by blast
qed

text \<open>The refund question with \<^verbatim>\<open>k=2\<close> on the stub, whose index returns two chunks.\<close>

theorem C6_context_is_joined_chunks_witness:
  "snd (get_context stub_env req_refund) =
     Inr \<lparr>resp_context = lit ''Chunk A\<newline>---\<newline>Chunk B'',
          resp_is_escalation = False\<rparr>"
proof -
  have n: "snd (rewrite_and_detect stub_env (req_question req_refund)
                 (req_history req_refund)) = Inr (lit ''refund policy'', False)"
    by (rule normalizer_stub)
  have t: "snd (extract_tags stub_env (lit ''refund policy'')) =
             Inr [lit ''refund'', lit ''policy'', lit ''return'']"
    by (rule tags_stub)
  have s: "snd (retrieve stub_env [lit ''refund'', lit ''policy'', lit ''return'']
                 (or_int (req_k req_refund) (DEFAULT_K stub_env))) =
           map JStr [lit ''Chunk A'', lit ''Chunk B'']"
    by (simp add: retrieve_def stub_env_def)
  have j: "(case [lit ''Chunk A'', lit ''Chunk B''] of
              [] \<Rightarrow> []
            | c # cs \<Rightarrow> c @ concat (map (\<lambda>d. lit ''\<newline>---\<newline>'' @ d) cs)) =
           lit ''Chunk A\<newline>---\<newline>Chunk B''"
    by (simp add: lit_def)
  have "snd (get_context stub_env req_refund) =
     Inr \<lparr>resp_context =
            (case [lit ''Chunk A'', lit ''Chunk B''] of
               [] \<Rightarrow> []
             | c # cs \<Rightarrow> c @ concat (map (\<lambda>d. lit ''\<newline>---\<newline>'' @ d) cs)),
          resp_is_escalation = False\<rparr>"
    using C6_context_is_joined_chunks [OF n, THEN conjunct2, THEN conjunct1] t s by blast
  then show ?thesis
    by (simp only: j)
qed

text \<open>
  Two more turns of the refund question. On the index with an object that has no \<^verbatim>\<open>text\<close>
  the \<^verbatim>\<open>KeyError\<close> stays inside \<^verbatim>\<open>retrieve\<close> and the context is empty; on the index with a
  null \<^verbatim>\<open>text\<close> the join raises and the turn ends with the \<^verbatim>\<open>TypeError\<close>.
\<close>

lemma turn_missing_text:
  "get_context stub_env_missing_text req_refund =
     ([Normalizer (lit ''What is the refund policy?'') None,
       Tag_Extractor (lit ''refund policy''),
       Retriever [lit ''refund'', lit ''policy'', lit ''return''] 2,
       Log_error (lit ''Weaviate query error: %s'') (KeyError (lit ''text''))],
      Inr \<lparr>resp_context = [], resp_is_escalation = False\<rparr>)"
proof -
  have n: "snd (rewrite_and_detect stub_env_missing_text (req_question req_refund)
                 (req_history req_refund)) = Inr (lit ''refund policy'', False)"
    using rewrite_and_detect_cong [of stub_env_missing_text stub_env] normalizer_stub
    by (simp add: stub_env_missing_text_def)
  have t: "snd (extract_tags stub_env_missing_text (lit ''refund policy'')) =
             Inr [lit ''refund'', lit ''policy'', lit ''return'']"
    using extract_tags_cong [of stub_env_missing_text stub_env] tags_stub
    by (simp add: stub_env_missing_text_def)
  have r: "retrieve stub_env_missing_text tags k =
             ([Retriever tags k,
               Log_error (lit ''Weaviate query error: %s'') (KeyError (lit ''text''))], [])"
    for tags k
    by (simp add: retrieve_def stub_env_missing_text_def lit_eq_iff)
  show ?thesis
    by (simp add: get_context_retrieval [OF n] t r join_method_Nil) (simp add: req_refund_def)
qed

lemma turn_null_text:
  "get_context stub_env_null_text req_refund =
     ([Normalizer (lit ''What is the refund policy?'') None,
       Tag_Extractor (lit ''refund policy''),
       Retriever [lit ''refund'', lit ''policy'', lit ''return''] 2],
      Inl TypeError)"
proof -
  have n: "snd (rewrite_and_detect stub_env_null_text (req_question req_refund)
                 (req_history req_refund)) = Inr (lit ''refund policy'', False)"
    using rewrite_and_detect_cong [of stub_env_null_text stub_env] normalizer_stub
    by (simp add: stub_env_null_text_def)
  have t: "snd (extract_tags stub_env_null_text (lit ''refund policy'')) =
             Inr [lit ''refund'', lit ''policy'', lit ''return'']"
    using extract_tags_cong [of stub_env_null_text stub_env] tags_stub
    by (simp add: stub_env_null_text_def)
  have r: "retrieve stub_env_null_text tags k =
             ([Retriever tags k], [JStr (lit ''Chunk A''), JNull])"
    for tags k
    by (simp add: retrieve_def stub_env_null_text_def)
  show ?thesis
    by (simp add: get_context_retrieval [OF n] t r join_method_def) (simp add: req_refund_def)
qed

section \<open>C7: what the Summarizer and the Recorder are given\<close>

lemma or_str_case:
  "or_str x d = (case x of None \<Rightarrow> d | Some s \<Rightarrow> if s = [] then d else s)"
  by (cases x) simp_all

lemma summarizer_calls_write_escalation:
  "summarizer_calls (fst (write_escalation e c t r)) = []"
  by (simp add: write_escalation_def split: sum.splits)

lemma recorder_calls_write_escalation:
  "recorder_calls (fst (write_escalation e c t r)) = [(c, t, r)]"
  by (simp add: write_escalation_def split: sum.splits)

text \<open>
  C7, as amended. On an escalation turn the Summarizer is invoked once, on the history when
  the request has a non-empty one and on the question when the history is absent or empty.
  When the Summarizer returned, the Recorder is invoked once, with the summary as reason,
  with the caller identifier and the escalation target of the request when they are
  non-empty, and with \<^verbatim>\<open>unknown\<close> in place of one that is absent or empty; when the Summarizer
  raised, the Recorder is not invoked.
\<close>

theorem C7_summarizer_and_recorder_arguments:
  assumes "snd (rewrite_and_detect e (req_question req) (req_history req)) = Inr (rw, True)"
  shows "summarizer_calls (fst (get_context e req)) =
           [case req_history req of
              None \<Rightarrow> req_question req
            | Some h \<Rightarrow> if h = [] then req_question req else h] \<and>
         recorder_calls (fst (get_context e req)) =
           (case snd (make_reason e (or_str (req_history req) (req_question req))) of
              Inl x \<Rightarrow> []
            | Inr reason \<Rightarrow>
                [(case req_caller_number req of
                    None \<Rightarrow> lit ''unknown''
                  | Some c \<Rightarrow> if c = [] then lit ''unknown'' else c,
                  case req_escalated_to req of
                    None \<Rightarrow> lit ''unknown''
                  | Some t \<Rightarrow> if t = [] then lit ''unknown'' else t,
                  reason)])"
proof -
  have s: "summarizer_calls (fst (get_context e req)) =
             [or_str (req_history req) (req_question req)]"
    by (simp add: get_context_escalation [OF assms] summarizer_calls_write_escalation
          split: sum.splits)
  have r: "recorder_calls (fst (get_context e req)) =
           (case snd (make_reason e (or_str (req_history req) (req_question req))) of
              Inl x \<Rightarrow> []
            | Inr reason \<Rightarrow>
                [(or_str (req_caller_number req) (lit ''unknown''),
                  or_str (req_escalated_to req) (lit ''unknown''), reason)])"
    by (simp add: get_context_escalation [OF assms] recorder_calls_write_escalation
          split: sum.splits)
  show ?thesis
    unfolding s r by (simp only: or_str_case)
qed

text \<open>
  The escalation turn of the stub: no history, no caller identifier, no target.
\<close>

theorem C7_summarizer_and_recorder_arguments_witness:
  "summarizer_calls (fst (get_context stub_env_escalation req_human)) =
     [lit ''I want to speak to a human''] \<and>
   recorder_calls (fst (get_context stub_env_escalation req_human)) =
     [(lit ''unknown'', lit ''unknown'',
       lit ''CONVERSATION: refund. ESCALATION: asked for a human.'')]"
proof -
  have n: "snd (rewrite_and_detect stub_env_escalation (req_question req_human)
                 (req_history req_human)) = Inr (lit ''request human agent'', True)"
    by (rule normalizer_stub_escalation)
  have s: "snd (make_reason stub_env_escalation t) =
             Inr (lit ''CONVERSATION: refund. ESCALATION: asked for a human.'')" for t
    using make_reason_cong [of stub_env_escalation stub_env t] summary_stub [of t]
    by (simp add: stub_env_escalation_def)
  have f: "req_history req_human = None" "req_caller_number req_human = None"
    "req_escalated_to req_human = None"
    "req_question req_human = lit ''I want to speak to a human''"
    by (simp_all add: req_human_def)
  show ?thesis
    using C7_summarizer_and_recorder_arguments [OF n] by (simp add: s f)
qed

text \<open>
  C7 as stated fails on a request whose history is present and empty: the Summarizer is
  invoked on the question, not on the history.
\<close>

theorem C7_empty_history_is_not_summarized:
  "req_history req_empty_history = Some [] \<and>
   summarizer_calls (fst (get_context stub_env_escalation req_empty_history)) =
     [lit ''I want to speak to a human'']"
proof -
  have n: "snd (rewrite_and_detect stub_env_escalation (req_question req_empty_history)
                 (req_history req_empty_history)) = Inr (lit ''request human agent'', True)"
    by (rule normalizer_stub_escalation)
  have f: "req_history req_empty_history = Some []"
    "req_question req_empty_history = lit ''I want to speak to a human''"
    by (simp_all add: req_empty_history_def req_human_def)
  show ?thesis
    by (simp add: get_context_escalation [OF n] summarizer_calls_write_escalation f
          split: sum.splits)
qed

section \<open>C8: the tags\<close>

lemma length_nonempty_strips:
  "length (filter (\<lambda>t. t \<noteq> []) (map str_strip xs)) =
   length (filter (\<lambda>t. \<not> list_all py_isspace t) xs)"
  by (induction xs) (simp_all add: str_strip_Nil_iff)

lemma no_nonempty_strips:
  "filter (\<lambda>t. t \<noteq> []) (map str_strip xs) = [] \<longleftrightarrow> list_all (\<lambda>t. list_all py_isspace t) xs"
  by (induction xs) (simp_all add: str_strip_Nil_iff)

lemma str_split_unique:
  assumes "ts \<noteq> []" and "list_all (\<lambda>t. c \<notin> set t) ts" and "str_join [c] ts = content"
  shows "str_split content c = ts"
  using assms str_split_join [of ts c] by (auto simp: list_all_iff)

lemma strips_are_trimmed_pieces:
  "list_all2
     (\<lambda>tag piece. tag \<noteq> [] \<and> \<not> py_isspace (hd tag) \<and> \<not> py_isspace (last tag) \<and>
        (\<exists>a b. piece = a @ tag @ b \<and> list_all py_isspace a \<and> list_all py_isspace b))
     (filter (\<lambda>t. t \<noteq> []) (map str_strip xs))
     (filter (\<lambda>t. \<not> list_all py_isspace t) xs)"
proof (induction xs)
  case Nil
  show ?case by simp
next
  case (Cons x xs)
  show ?case
  proof (cases "list_all py_isspace x")
    case True
    then have "str_strip x = []" by (simp add: str_strip_Nil_iff)
    with True Cons show ?thesis by simp
  next
    case False
    then have ne: "str_strip x \<noteq> []" by (simp add: str_strip_Nil_iff)
    have "\<not> py_isspace (hd (str_strip x))" "\<not> py_isspace (last (str_strip x))"
      using ne by (rule str_strip_hd, rule str_strip_last)
    moreover have "\<exists>a b. x = a @ str_strip x @ b \<and> list_all py_isspace a \<and>
        list_all py_isspace b"
      by (rule str_strip_surrounded)
    ultimately show ?thesis
      using False ne Cons by simp
  qed
qed

text \<open>
  C8. Whatever string the keyword call returns, \<^verbatim>\<open>extract_tags\<close> returns a list, never an
  error: the pieces of the string between its commas, each with the surrounding whitespace
  removed, without those that are then empty, in the order of the string. The pieces are
  determined by the string: they contain no comma, joined with commas they give the string
  back, and they are the only non-empty list of comma-free strings that does. The tags
  correspond one to one, in order, to the pieces that are not all whitespace: a tag is not
  empty, neither starts nor ends with whitespace, and its piece is the tag between two runs
  of whitespace. The number of tags is the number of those pieces, whatever it is, and the
  list is empty exactly when every piece is empty or all whitespace. Whitespace is the set
  of code points that \<^verbatim>\<open>str.strip\<close> removes.
\<close>

theorem C8_tags_are_trimmed_tokens:
  assumes "llm_keywords e (keywords_prompt query) = Inr (Some content)"
  shows "snd (extract_tags e query) =
           Inr (filter (\<lambda>t. t \<noteq> []) (map str_strip (str_split content (of_char CHR '','')))) \<and>
         str_join [of_char CHR '',''] (str_split content (of_char CHR '','')) = content \<and>
         list_all (\<lambda>t. of_char CHR '','' \<notin> set t) (str_split content (of_char CHR '','')) \<and>
         (\<forall>ts. ts \<noteq> [] \<and> list_all (\<lambda>t. of_char CHR '','' \<notin> set t) ts \<and>
                str_join [of_char CHR '',''] ts = content \<longrightarrow>
               str_split content (of_char CHR '','') = ts) \<and>
         length (filter (\<lambda>t. t \<noteq> []) (map str_strip (str_split content (of_char CHR '','')))) =
           length (filter (\<lambda>t. \<not> list_all py_isspace t)
                     (str_split content (of_char CHR '',''))) \<and>
         (snd (extract_tags e query) = Inr [] \<longleftrightarrow>
            list_all (\<lambda>t. list_all py_isspace t) (str_split content (of_char CHR '',''))) \<and>
         (\<exists>tags. snd (extract_tags e query) = Inr tags \<and>
            list_all2
              (\<lambda>tag piece. tag \<noteq> [] \<and> \<not> py_isspace (hd tag) \<and> \<not> py_isspace (last tag) \<and>
                 (\<exists>a b. piece = a @ tag @ b \<and> list_all py_isspace a \<and> list_all py_isspace b))
              tags
              (filter (\<lambda>t. \<not> list_all py_isspace t) (str_split content (of_char CHR '','')))) \<and>
         (\<forall>c. py_isspace c \<longleftrightarrow>
            c \<in> {9..13} \<union> {28..32} \<union> {133, 160, 5760} \<union> {8192..8202} \<union>
                {8232, 8233, 8239, 8287, 12288})"
proof -
  let ?c = "of_char CHR '','' :: codepoint"
  have 1: "snd (extract_tags e query) =
           Inr (filter (\<lambda>t. t \<noteq> []) (map str_strip (str_split content ?c)))"
    using assms by (simp add: extract_tags_def filter_map_strip)
  have 2: "str_join [?c] (str_split content ?c) = content"
    by (rule str_join_split)
  have 3: "list_all (\<lambda>t. ?c \<notin> set t) (str_split content ?c)"
    using str_split_no_separator [of _ content ?c] by (auto simp: list_all_iff)
  have 4: "\<forall>ts. ts \<noteq> [] \<and> list_all (\<lambda>t. ?c \<notin> set t) ts \<and> str_join [?c] ts = content \<longrightarrow>
               str_split content ?c = ts"
    using str_split_unique [of _ ?c content] by blast
  have 5: "length (filter (\<lambda>t. t \<noteq> []) (map str_strip (str_split content ?c))) =
           length (filter (\<lambda>t. \<not> list_all py_isspace t) (str_split content ?c))"
    by (rule length_nonempty_strips)
  have 6: "snd (extract_tags e query) = Inr [] \<longleftrightarrow>
            list_all (\<lambda>t. list_all py_isspace t) (str_split content ?c)"
    unfolding 1 using no_nonempty_strips [of "str_split content ?c"] by simp
  have 7: "\<exists>tags. snd (extract_tags e query) = Inr tags \<and>
            list_all2
              (\<lambda>tag piece. tag \<noteq> [] \<and> \<not> py_isspace (hd tag) \<and> \<not> py_isspace (last tag) \<and>
                 (\<exists>a b. piece = a @ tag @ b \<and> list_all py_isspace a \<and> list_all py_isspace b))
              tags (filter (\<lambda>t. \<not> list_all py_isspace t) (str_split content ?c))"
    using 1 strips_are_trimmed_pieces [of "str_split content ?c"] by blast
  have 8: "\<forall>c. py_isspace c \<longleftrightarrow>
            c \<in> {9..13} \<union> {28..32} \<union> {133, 160, 5760} \<union> {8192..8202} \<union>
                {8232, 8233, 8239, 8287, 12288}"
    using py_isspace_iff by blast
  from 1 2 3 4 5 6 7 8 show ?thesis by blast
qed

text \<open>The keyword call of the stub answers \<^verbatim>\<open>refund, policy, return\<close>: three tags.\<close>

theorem C8_tags_are_trimmed_tokens_witness:
  "str_split (lit ''refund, policy, return'') (of_char CHR '','') =
     [lit ''refund'', lit '' policy'', lit '' return''] \<and>
   snd (extract_tags stub_env (lit ''refund policy'')) =
     Inr [lit ''refund'', lit ''policy'', lit ''return'']"
proof -
  have a: "llm_keywords stub_env (keywords_prompt (lit ''refund policy'')) =
             Inr (Some (lit ''refund, policy, return''))"
    by (simp add: stub_env_def)
  have j: "[lit ''refund'', lit '' policy'', lit '' return''] \<noteq> [] \<and>
           list_all (\<lambda>t. of_char CHR '','' \<notin> set t)
             [lit ''refund'', lit '' policy'', lit '' return''] \<and>
           str_join [of_char CHR '','']
             [lit ''refund'', lit '' policy'', lit '' return''] =
           lit ''refund, policy, return''"
    by (simp add: lit_def)
  note t = C8_tags_are_trimmed_tokens [OF a]
  have s: "str_split (lit ''refund, policy, return'') (of_char CHR '','') =
             [lit ''refund'', lit '' policy'', lit '' return'']"
    using t [THEN conjunct2, THEN conjunct2, THEN conjunct2, THEN conjunct1] j by blast
  have m: "filter (\<lambda>t. t \<noteq> [])
             (map str_strip [lit ''refund'', lit '' policy'', lit '' return'']) =
           [lit ''refund'', lit ''policy'', lit ''return'']"
    by (simp add: lit_def str_strip_def py_isspace_def)
  have "snd (extract_tags stub_env (lit ''refund policy'')) =
          Inr (filter (\<lambda>t. t \<noteq> [])
                 (map str_strip
                    (str_split (lit ''refund, policy, return'') (of_char CHR '',''))))"
    using t by (rule conjunct1)
  with s m show ?thesis by simp
qed

section \<open>C9: the rewritten query\<close>

text \<open>
  C9, as amended. When the arguments carry a string \<^verbatim>\<open>rewritten_query\<close> and an
  \<^verbatim>\<open>is_escalation\<close>, the rewritten query is that string without its surrounding whitespace,
  whatever is left: the string is the rewritten query between two runs of whitespace, and
  the rewritten query, when not empty, neither starts nor ends with whitespace; it is empty
  exactly when the string of the model is empty or all whitespace. The normalizer returns it
  together with the truth value of \<^verbatim>\<open>is_escalation\<close>, unless it holds a surrogate, on which
  the \<^verbatim>\<open>print\<close> raises. Whitespace is the set of code points that \<^verbatim>\<open>str.strip\<close> removes.
\<close>

theorem C9_rewritten_query_is_stripped_value:
  assumes "llm_process_query e (user_content q h) = Inr (JObj items)"
    and "map_of items (lit ''rewritten_query'') = Some (JStr s)"
    and "map_of items (lit ''is_escalation'') = Some b"
  shows "snd (rewrite_and_detect e q h) =
           (if list_ex is_surrogate (str_strip s) then Inl UnicodeEncodeError
            else Inr (str_strip s, py_bool b)) \<and>
         (str_strip s = [] \<longleftrightarrow> list_all py_isspace s) \<and>
         (\<exists>a c. s = a @ str_strip s @ c \<and> list_all py_isspace a \<and> list_all py_isspace c) \<and>
         (str_strip s \<noteq> [] \<longrightarrow>
            \<not> py_isspace (hd (str_strip s)) \<and> \<not> py_isspace (last (str_strip s))) \<and>
         (\<forall>c. py_isspace c \<longleftrightarrow>
            c \<in> {9..13} \<union> {28..32} \<union> {133, 160, 5760} \<union> {8192..8202} \<union>
                {8232, 8233, 8239, 8287, 12288}) \<and>
         (\<forall>c. is_surrogate c \<longleftrightarrow> c \<in> {55296..57343})"
proof -
  have 1: "snd (rewrite_and_detect e q h) =
           (if list_ex is_surrogate (str_strip s) then Inl UnicodeEncodeError
            else Inr (str_strip s, py_bool b))"
    using assms by (simp add: rewrite_and_detect_def print_str_def)
  have 2: "str_strip s = [] \<longleftrightarrow> list_all py_isspace s"
    by (rule str_strip_Nil_iff)
  have 3: "\<exists>a c. s = a @ str_strip s @ c \<and> list_all py_isspace a \<and> list_all py_isspace c"
    by (rule str_strip_surrounded)
  have 4: "str_strip s \<noteq> [] \<longrightarrow>
            \<not> py_isspace (hd (str_strip s)) \<and> \<not> py_isspace (last (str_strip s))"
    using str_strip_hd [of s] str_strip_last [of s] by blast
  from 1 2 3 4 py_isspace_iff is_surrogate_iff show ?thesis
    by blast
qed

text \<open>The normalizer of the stub: \<^verbatim>\<open>refund policy\<close> has no whitespace around it.\<close>

theorem C9_rewritten_query_is_stripped_value_witness:
  "snd (rewrite_and_detect stub_env (req_question req_refund) (req_history req_refund)) =
     Inr (lit ''refund policy'', False) \<and>
   \<not> list_all py_isspace (lit ''refund policy'') \<and>
   \<not> py_isspace (hd (lit ''refund policy'')) \<and>
   \<not> py_isspace (last (lit ''refund policy''))"
proof -
  have a: "llm_process_query stub_env
             (user_content (req_question req_refund) (req_history req_refund)) =
           Inr (JObj [(lit ''rewritten_query'', JStr (lit ''refund policy'')),
                      (lit ''is_escalation'', JBool False)])"
    by (simp add: stub_env_def)
  have r: "map_of [(lit ''rewritten_query'', JStr (lit ''refund policy'')),
                   (lit ''is_escalation'', JBool False)] (lit ''rewritten_query'') =
           Some (JStr (lit ''refund policy''))"
    by simp
  have f: "map_of [(lit ''rewritten_query'', JStr (lit ''refund policy'')),
                   (lit ''is_escalation'', JBool False)] (lit ''is_escalation'') =
           Some (JBool False)"
    by (simp add: lit_eq_iff)
  have s: "str_strip (lit ''refund policy'') = lit ''refund policy''"
    by (simp add: lit_def str_strip_def py_isspace_def)
  have ne: "lit ''refund policy'' \<noteq> []"
    by (simp add: lit_def)
  have p: "\<not> list_ex is_surrogate (lit ''refund policy'')"
    by (simp add: lit_def is_surrogate_def)
  note t = C9_rewritten_query_is_stripped_value [OF a r f]
  have 1: "snd (rewrite_and_detect stub_env (req_question req_refund)
                 (req_history req_refund)) = Inr (lit ''refund policy'', False)"
    using t [THEN conjunct1] p by (simp add: s)
  have 2: "\<not> list_all py_isspace (lit ''refund policy'')"
    using t [THEN conjunct2, THEN conjunct1] ne by (simp add: s)
  have 4: "\<not> py_isspace (hd (lit ''refund policy'')) \<and>
           \<not> py_isspace (last (lit ''refund policy''))"
    using t [THEN conjunct2, THEN conjunct2, THEN conjunct2, THEN conjunct1] ne
    by (simp add: s)
  from 1 2 4 show ?thesis by simp
qed

text \<open>
  C9 as stated fails on a normalizer whose model answers with three spaces: the rewritten
  query is the empty string, and the normalizer returns it.
\<close>

theorem C9_blank_rewritten_query:
  "snd (rewrite_and_detect stub_env_blank_rewrite (req_question req_refund)
         (req_history req_refund)) = Inr ([], False)"
  by (simp add: rewrite_and_detect_def stub_env_blank_rewrite_def lit_def str_strip_def
        py_isspace_def print_str_def)

section \<open>C10: falsy optional fields\<close>

lemma retriever_calls_retrieve: "retriever_calls (fst (retrieve e tags k)) = [(tags, k)]"
  by (simp add: retrieve_def split: sum.splits)

text \<open>
  C10. A request with \<^verbatim>\<open>k=0\<close>, with \<^verbatim>\<open>caller_number=""\<close> or with \<^verbatim>\<open>escalated_to=""\<close>
  gives the same events and the same outcome as the request without the field. With
  \<^verbatim>\<open>history=""\<close> the normalizer is sent the same message as without a history, the one
  with the marker \<^verbatim>\<open>[none]\<close>; the outcome of the turn is the same and so is every event
  after the invocation of the normalizer (which records the argument it was given), so the
  summarizer gets the question. The fallbacks themselves: \<^verbatim>\<open>0\<close> gives the default count and
  \<^verbatim>\<open>""\<close> gives \<^verbatim>\<open>unknown\<close>.

  In the turn itself: with \<^verbatim>\<open>k=0\<close>, on a turn without escalation whose tags were extracted,
  the Retriever is invoked once, with the tags and \<open>DEFAULT_K\<close>. With \<^verbatim>\<open>history=""\<close>, on an
  escalation turn the Summarizer is invoked once, on the question; and the turn is the same
  for every model of the normalizer that gives the same answer to the message with the marker
  \<^verbatim>\<open>[none]\<close>, so this message is the one the normalizer sends. With \<^verbatim>\<open>caller_number=""\<close> and
  \<^verbatim>\<open>escalated_to=""\<close>, on an escalation turn whose summary was produced, the Recorder is
  invoked once, with \<^verbatim>\<open>unknown\<close> twice and the summary.
\<close>

theorem C10_falsy_fields_as_absent:
  "get_context e (req\<lparr>req_k := Some 0\<rparr>) = get_context e (req\<lparr>req_k := None\<rparr>) \<and>
   get_context e (req\<lparr>req_caller_number := Some []\<rparr>) =
     get_context e (req\<lparr>req_caller_number := None\<rparr>) \<and>
   get_context e (req\<lparr>req_escalated_to := Some []\<rparr>) =
     get_context e (req\<lparr>req_escalated_to := None\<rparr>) \<and>
   user_content q (Some []) = user_content q None \<and>
   user_content q None =
     lit ''History:\<newline>[none]\<newline>\<newline>Latest:\<newline>'' @ q \<and>
   snd (get_context e (req\<lparr>req_history := Some []\<rparr>)) =
     snd (get_context e (req\<lparr>req_history := None\<rparr>)) \<and>
   tl (fst (get_context e (req\<lparr>req_history := Some []\<rparr>))) =
     tl (fst (get_context e (req\<lparr>req_history := None\<rparr>))) \<and>
   or_int (Some 0) (DEFAULT_K e) = DEFAULT_K e \<and>
   or_str (Some []) q = q \<and>
   or_str (Some []) (lit ''unknown'') = lit ''unknown'' \<and>
   (snd (rewrite_and_detect e (req_question req) (req_history req)) = Inr (rw, False) \<and>
    snd (extract_tags e rw) = Inr tags \<longrightarrow>
      retriever_calls (fst (get_context e (req\<lparr>req_k := Some 0\<rparr>))) =
        [(tags, DEFAULT_K e)]) \<and>
   (snd (rewrite_and_detect e (req_question req) (Some [])) = Inr (rw, True) \<longrightarrow>
      summarizer_calls (fst (get_context e (req\<lparr>req_history := Some []\<rparr>))) =
        [req_question req]) \<and>
   (\<forall>f. f (lit ''History:\<newline>[none]\<newline>\<newline>Latest:\<newline>'' @ req_question req) =
          llm_process_query e
            (lit ''History:\<newline>[none]\<newline>\<newline>Latest:\<newline>'' @ req_question req) \<longrightarrow>
        get_context (e\<lparr>llm_process_query := f\<rparr>) (req\<lparr>req_history := Some []\<rparr>) =
          get_context e (req\<lparr>req_history := Some []\<rparr>)) \<and>
   (snd (rewrite_and_detect e (req_question req) (req_history req)) = Inr (rw, True) \<and>
    snd (make_reason e
           (case req_history req of
              None \<Rightarrow> req_question req
            | Some h \<Rightarrow> if h = [] then req_question req else h)) = Inr reason \<longrightarrow>
      recorder_calls
        (fst (get_context e (req\<lparr>req_caller_number := Some [], req_escalated_to := Some []\<rparr>))) =
        [(lit ''unknown'', lit ''unknown'', reason)])"
proof -
  have k: "get_context e (req\<lparr>req_k := Some 0\<rparr>) = get_context e (req\<lparr>req_k := None\<rparr>)"
    by (simp add: get_context_def Let_def case_prod_beta cong: sum.case_cong if_cong)
  have c: "get_context e (req\<lparr>req_caller_number := Some []\<rparr>) =
             get_context e (req\<lparr>req_caller_number := None\<rparr>)"
    by (simp add: get_context_def Let_def case_prod_beta cong: sum.case_cong if_cong)
  have t: "get_context e (req\<lparr>req_escalated_to := Some []\<rparr>) =
             get_context e (req\<lparr>req_escalated_to := None\<rparr>)"
    by (simp add: get_context_def Let_def case_prod_beta cong: sum.case_cong if_cong)
  have u: "user_content q' (Some []) = user_content q' None" for q'
    by (simp add: user_content_def)
  have m: "user_content q' None =
             lit ''History:\<newline>[none]\<newline>\<newline>Latest:\<newline>'' @ q'" for q'
    by (simp add: user_content_def lit_def)
  have h1: "snd (get_context e (req\<lparr>req_history := Some []\<rparr>)) =
              snd (get_context e (req\<lparr>req_history := None\<rparr>))"
    by (simp add: get_context_def Let_def case_prod_beta rewrite_and_detect_def
          user_content_def split: sum.splits cong: sum.case_cong if_cong)
  have h2: "tl (fst (get_context e (req\<lparr>req_history := Some []\<rparr>))) =
              tl (fst (get_context e (req\<lparr>req_history := None\<rparr>)))"
    by (simp add: get_context_def Let_def case_prod_beta rewrite_and_detect_def
          user_content_def split: sum.splits cong: sum.case_cong if_cong)
  have rk: "retriever_calls (fst (get_context e (req\<lparr>req_k := Some 0\<rparr>))) =
              [(tags, DEFAULT_K e)]"
    if "snd (rewrite_and_detect e (req_question req) (req_history req)) = Inr (rw, False)"
      and "snd (extract_tags e rw) = Inr tags"
  proof -
    have n: "snd (rewrite_and_detect e (req_question (req\<lparr>req_k := Some 0\<rparr>))
                   (req_history (req\<lparr>req_k := Some 0\<rparr>))) = Inr (rw, False)"
      using that(1) by simp
    show ?thesis
      by (simp add: get_context_retrieval [OF n] that(2) retriever_calls_retrieve)
  qed
  have sh: "summarizer_calls (fst (get_context e (req\<lparr>req_history := Some []\<rparr>))) =
              [req_question req]"
    if "snd (rewrite_and_detect e (req_question req) (Some [])) = Inr (rw, True)"
  proof -
    have n: "snd (rewrite_and_detect e (req_question (req\<lparr>req_history := Some []\<rparr>))
                   (req_history (req\<lparr>req_history := Some []\<rparr>))) = Inr (rw, True)"
      using that by simp
    show ?thesis
      by (simp add: get_context_escalation [OF n] summarizer_calls_write_escalation
            split: sum.splits)
  qed
  have fr: "get_context (e\<lparr>llm_process_query := f\<rparr>) (req\<lparr>req_history := Some []\<rparr>) =
              get_context e (req\<lparr>req_history := Some []\<rparr>)"
    if "f (lit ''History:\<newline>[none]\<newline>\<newline>Latest:\<newline>'' @ req_question req) =
          llm_process_query e
            (lit ''History:\<newline>[none]\<newline>\<newline>Latest:\<newline>'' @ req_question req)"
    for f
  proof -
    have rd: "rewrite_and_detect (e\<lparr>llm_process_query := f\<rparr>) (req_question req) (Some []) =
                rewrite_and_detect e (req_question req) (Some [])"
      using that by (simp add: rewrite_and_detect_def u m)
    have mk: "make_reason (e\<lparr>llm_process_query := f\<rparr>) x = make_reason e x" for x
      by (simp add: make_reason_def)
    have ex: "extract_tags (e\<lparr>llm_process_query := f\<rparr>) x = extract_tags e x" for x
      by (simp add: extract_tags_def)
    have rt: "retrieve (e\<lparr>llm_process_query := f\<rparr>) x y = retrieve e x y" for x y
      by (simp add: retrieve_def)
    have we: "write_escalation (e\<lparr>llm_process_query := f\<rparr>) x y z = write_escalation e x y z"
      for x y z
      by (simp add: write_escalation_def)
    show ?thesis
      by (simp add: get_context_def Let_def case_prod_beta rd mk ex rt we
            cong: sum.case_cong if_cong)
  qed
  have rc: "recorder_calls
        (fst (get_context e (req\<lparr>req_caller_number := Some [], req_escalated_to := Some []\<rparr>))) =
        [(lit ''unknown'', lit ''unknown'', reason)]"
    if "snd (rewrite_and_detect e (req_question req) (req_history req)) = Inr (rw, True)"
      and "snd (make_reason e
           (case req_history req of
              None \<Rightarrow> req_question req
            | Some h \<Rightarrow> if h = [] then req_question req else h)) = Inr reason"
  proof -
    let ?r = "req\<lparr>req_caller_number := Some [], req_escalated_to := Some []\<rparr>"
    have n: "snd (rewrite_and_detect e (req_question ?r) (req_history ?r)) = Inr (rw, True)"
      using that(1) by simp
    have s: "snd (make_reason e (or_str (req_history req) (req_question req))) = Inr reason"
      using that(2) by (simp add: or_str_case)
    show ?thesis
      by (simp add: get_context_escalation [OF n] s recorder_calls_write_escalation)
  qed
  from k c t u m h1 h2 rk sh fr rc show ?thesis
    by simp
qed

text \<open>
  The refund question with \<^verbatim>\<open>k=0\<close> on the stub, whose default count is 4; the request for a
  human with an empty history, and with an empty caller identifier and target, on the stub
  that reports an escalation; and the same turn on a model of the normalizer that answers
  the message with the marker and raises on every other one.
\<close>

theorem C10_falsy_fields_as_absent_witness:
  "retriever_calls (fst (get_context stub_env (req_refund\<lparr>req_k := Some 0\<rparr>))) =
     [([lit ''refund'', lit ''policy'', lit ''return''], 4)] \<and>
   summarizer_calls (fst (get_context stub_env_escalation (req_human\<lparr>req_history := Some []\<rparr>))) =
     [lit ''I want to speak to a human''] \<and>
   recorder_calls
     (fst (get_context stub_env_escalation
             (req_human\<lparr>req_caller_number := Some [], req_escalated_to := Some []\<rparr>))) =
     [(lit ''unknown'', lit ''unknown'',
       lit ''CONVERSATION: refund. ESCALATION: asked for a human.'')] \<and>
   get_context
     (stub_env_escalation\<lparr>llm_process_query :=
        (\<lambda>m. if m = lit ''History:\<newline>[none]\<newline>\<newline>Latest:\<newline>'' @
                      lit ''I want to speak to a human''
              then Inr (JObj [(lit ''rewritten_query'', JStr (lit ''request human agent'')),
                              (lit ''is_escalation'', JBool True)])
              else Inl (OtherException (lit ''unexpected message'')))\<rparr>)
     (req_human\<lparr>req_history := Some []\<rparr>) =
   get_context stub_env_escalation (req_human\<lparr>req_history := Some []\<rparr>)"
proof -
  let ?f = "\<lambda>m. if m = lit ''History:\<newline>[none]\<newline>\<newline>Latest:\<newline>'' @
                      lit ''I want to speak to a human''
              then Inr (JObj [(lit ''rewritten_query'', JStr (lit ''request human agent'')),
                              (lit ''is_escalation'', JBool True)])
              else Inl (OtherException (lit ''unexpected message''))"
  have q: "req_question req_human = lit ''I want to speak to a human''"
          "req_history req_human = None"
    by (simp_all add: req_human_def)
  have d: "DEFAULT_K stub_env = 4"
    by (simp add: stub_env_def)
  have n1: "snd (rewrite_and_detect stub_env (req_question req_refund)
                  (req_history req_refund)) = Inr (lit ''refund policy'', False)"
    by (rule normalizer_stub)
  have t1: "snd (extract_tags stub_env (lit ''refund policy'')) =
              Inr [lit ''refund'', lit ''policy'', lit ''return'']"
    by (rule tags_stub)
  have n2: "snd (rewrite_and_detect stub_env_escalation (req_question req_human) (Some [])) =
              Inr (lit ''request human agent'', True)"
    by (rule normalizer_stub_escalation)
  have n3: "snd (rewrite_and_detect stub_env_escalation (req_question req_human)
                  (req_history req_human)) = Inr (lit ''request human agent'', True)"
    by (rule normalizer_stub_escalation)
  have s3: "snd (make_reason stub_env_escalation
                  (case req_history req_human of
                     None \<Rightarrow> req_question req_human
                   | Some h \<Rightarrow> if h = [] then req_question req_human else h)) =
              Inr (lit ''CONVERSATION: refund. ESCALATION: asked for a human.'')"
    using make_reason_cong [of stub_env_escalation stub_env] summary_stub
    by (simp add: stub_env_escalation_def)
  have f4: "?f (lit ''History:\<newline>[none]\<newline>\<newline>Latest:\<newline>'' @ req_question req_human) =
            llm_process_query stub_env_escalation
              (lit ''History:\<newline>[none]\<newline>\<newline>Latest:\<newline>'' @ req_question req_human)"
    by (simp add: q stub_env_escalation_def)
  have "retriever_calls (fst (get_context stub_env (req_refund\<lparr>req_k := Some 0\<rparr>))) =
          [([lit ''refund'', lit ''policy'', lit ''return''], DEFAULT_K stub_env)]"
    using C10_falsy_fields_as_absent [of stub_env req_refund _ "lit ''refund policy''"
        "[lit ''refund'', lit ''policy'', lit ''return'']"] n1 t1
    by blast
  then have 1: "retriever_calls (fst (get_context stub_env (req_refund\<lparr>req_k := Some 0\<rparr>))) =
             [([lit ''refund'', lit ''policy'', lit ''return''], 4)]"
    by (simp only: d)
  have "summarizer_calls
          (fst (get_context stub_env_escalation (req_human\<lparr>req_history := Some []\<rparr>))) =
          [req_question req_human]"
    using C10_falsy_fields_as_absent [of stub_env_escalation req_human _
        "lit ''request human agent''"] n2
    by blast
  then have 2: "summarizer_calls
             (fst (get_context stub_env_escalation (req_human\<lparr>req_history := Some []\<rparr>))) =
             [lit ''I want to speak to a human'']"
    by (simp only: q)
  have 3: "recorder_calls
     (fst (get_context stub_env_escalation
             (req_human\<lparr>req_caller_number := Some [], req_escalated_to := Some []\<rparr>))) =
     [(lit ''unknown'', lit ''unknown'',
       lit ''CONVERSATION: refund. ESCALATION: asked for a human.'')]"
    using C10_falsy_fields_as_absent [of stub_env_escalation req_human _
        "lit ''request human agent''" _
        "lit ''CONVERSATION: refund. ESCALATION: asked for a human.''"] n3 s3
    by blast
  have 4: "get_context (stub_env_escalation\<lparr>llm_process_query := ?f\<rparr>)
             (req_human\<lparr>req_history := Some []\<rparr>) =
           get_context stub_env_escalation (req_human\<lparr>req_history := Some []\<rparr>)"
    using C10_falsy_fields_as_absent [of stub_env_escalation req_human,
        THEN conjunct2, THEN conjunct2, THEN conjunct2, THEN conjunct2, THEN conjunct2,
        THEN conjunct2, THEN conjunct2, THEN conjunct2, THEN conjunct2, THEN conjunct2,
        THEN conjunct2, THEN conjunct2, THEN conjunct1, THEN spec, of ?f] f4
    by simp
  from 1 2 3 4 show ?thesis
    by blast
qed

end
